theory Spec2Isabelle
  imports Complex_Main "HOL-Library.Word"
begin

section \<open>Values shared by the result model\<close>

text \<open>
  Go's \<open>float64\<close>: a finite value or one of the three non-finite values. Finite
  arithmetic is exact here: rounding, overflow of a finite result and the sign of zero
  are not modelled. What is modelled is which operations produce and propagate
  \<open>NaN\<close> and the infinities, since the analytics divide by counts that may be zero.
\<close>

datatype float64 = Fin real | PInf | NInf | NaN

type_synonym Floats = "float64 list"

fun fadd :: "float64 \<Rightarrow> float64 \<Rightarrow> float64" where
  "fadd (Fin a) (Fin b) = Fin (a + b)"
| "fadd NaN _ = NaN"
| "fadd _ NaN = NaN"
| "fadd PInf NInf = NaN"
| "fadd NInf PInf = NaN"
| "fadd PInf _ = PInf"
| "fadd _ PInf = PInf"
| "fadd NInf _ = NInf"
| "fadd _ NInf = NInf"

fun fmul :: "float64 \<Rightarrow> float64 \<Rightarrow> float64" where
  "fmul (Fin a) (Fin b) = Fin (a * b)"
| "fmul NaN _ = NaN"
| "fmul _ NaN = NaN"
| "fmul PInf (Fin b) = (if b = 0 then NaN else if 0 < b then PInf else NInf)"
| "fmul NInf (Fin b) = (if b = 0 then NaN else if 0 < b then NInf else PInf)"
| "fmul (Fin a) PInf = (if a = 0 then NaN else if 0 < a then PInf else NInf)"
| "fmul (Fin a) NInf = (if a = 0 then NaN else if 0 < a then NInf else PInf)"
| "fmul PInf PInf = PInf"
| "fmul PInf NInf = NInf"
| "fmul NInf PInf = NInf"
| "fmul NInf NInf = PInf"

fun fdiv :: "float64 \<Rightarrow> float64 \<Rightarrow> float64" where
  "fdiv (Fin a) (Fin b) =
     (if b \<noteq> 0 then Fin (a / b)
      else if a = 0 then NaN else if 0 < a then PInf else NInf)"
| "fdiv NaN _ = NaN"
| "fdiv _ NaN = NaN"
| "fdiv (Fin a) PInf = Fin 0"
| "fdiv (Fin a) NInf = Fin 0"
| "fdiv PInf (Fin b) = (if 0 \<le> b then PInf else NInf)"
| "fdiv NInf (Fin b) = (if 0 \<le> b then NInf else PInf)"
| "fdiv PInf PInf = NaN"
| "fdiv PInf NInf = NaN"
| "fdiv NInf PInf = NaN"
| "fdiv NInf NInf = NaN"

text \<open>The comparison \<open>a > b\<close>: false as soon as one side is \<open>NaN\<close>.\<close>

fun fgt :: "float64 \<Rightarrow> float64 \<Rightarrow> bool" where
  "fgt (Fin a) (Fin b) = (b < a)"
| "fgt PInf (Fin b) = True"
| "fgt PInf NInf = True"
| "fgt (Fin a) NInf = True"
| "fgt _ _ = False"

text \<open>\<open>math.Log\<close>, with its special cases.\<close>

fun flog :: "float64 \<Rightarrow> float64" where
  "flog (Fin a) = (if a < 0 then NaN else if a = 0 then NInf else Fin (ln a))"
| "flog PInf = PInf"
| "flog NInf = NaN"
| "flog NaN = NaN"

text \<open>The conversion \<open>float64(n)\<close> of an integer.\<close>

definition float64_of_int :: "int \<Rightarrow> float64" where
  "float64_of_int n = Fin (real_of_int n)"

text \<open>
  Go's \<open>int\<close>, \<open>int64\<close> and \<open>time.Duration\<close> are 64-bit two's complement. Values
  that are only stored and compared are kept as \<open>int\<close>; where the code adds or divides
  them, the wrap-around and the truncation towards zero are written out.
\<close>

definition wrap64 :: "int \<Rightarrow> int" where
  "wrap64 x = (x + 2 ^ 63) mod 2 ^ 64 - 2 ^ 63"

definition quot64 :: "int \<Rightarrow> int \<Rightarrow> int" where
  "quot64 a b = wrap64 (sgn a * sgn b * (\<bar>a\<bar> div \<bar>b\<bar>))"

definition MinInt64 :: int where
  "MinInt64 = - (2 ^ 63)"

definition MaxInt :: int where
  "MaxInt = 2 ^ 63 - 1"

text \<open>\<open>Duration.Seconds\<close>: nanoseconds as a floating-point number of seconds.\<close>

definition Seconds :: "int \<Rightarrow> float64" where
  "Seconds d = Fin (real_of_int d / 1000000000)"

section \<open>Errors and panics\<close>

text \<open>
  \<open>Wrap e msg\<close> is \<open>errors.Wrap(e, msg)\<close>. \<open>SinkIOError\<close> is the failure of the
  writer behind an encoder, \<open>EOF\<close> and \<open>TypeMismatch\<close> are the two ways a gob decoder
  fails on a value, \<open>GenomeError\<close> is an error of the genome's own writer or parser.
\<close>

datatype error = EOF | TypeMismatch | SinkIOError | GenomeError | Wrap error string

datatype panic = NilPointerDereference | IndexOutOfRange | MakeSliceLenOutOfRange

text \<open>What stops a function that can both return an error and panic.\<close>

datatype failure = Error error | Panic panic

definition bindE :: "'e + 'a \<Rightarrow> ('a \<Rightarrow> 'e + 'b) \<Rightarrow> 'e + 'b" where
  "bindE m f = (case m of Inl e \<Rightarrow> Inl e | Inr x \<Rightarrow> f x)"

definition liftE :: "error + 'a \<Rightarrow> failure + 'a" where
  "liftE m = (case m of Inl e \<Rightarrow> Inl (Error e) | Inr x \<Rightarrow> Inr x)"

text \<open>\<open>if err != nil { return errors.Wrap(err, msg) }\<close> around a fallible step.\<close>

definition wrapE :: "string \<Rightarrow> error + 'a \<Rightarrow> error + 'a" where
  "wrapE msg m = (case m of Inl e \<Rightarrow> Inl (Wrap e msg) | Inr x \<Rightarrow> Inr x)"

section \<open>The gob stream\<close>

text \<open>
  A gob stream is a sequence of typed values, read back in the order they were written.
  A \<open>time.Duration\<close> and every \<open>int\<close> travel as integers, \<open>Floats\<close> as a slice of
  floats, a \<open>time.Time\<close> as its instant (nanoseconds).
\<close>

datatype gobval =
    GInt int
  | GBool bool
  | GFloat float64
  | GString string
  | GTime int
  | GFloats Floats
  | GBytes "8 word list"

text \<open>
  The encoder appends to what its writer has taken so far. \<open>room\<close> is the number of
  further values the writer accepts before it fails, \<open>None\<close> for a writer that never
  fails (a buffer).
\<close>

record Encoder =
  written :: "gobval list"
  room :: "nat option"

definition enc_Encode :: "gobval \<Rightarrow> Encoder \<Rightarrow> error + Encoder" where
  "enc_Encode v enc =
     (case room enc of
        None \<Rightarrow> Inr (enc\<lparr>written := written enc @ [v]\<rparr>)
      | Some 0 \<Rightarrow> Inl SinkIOError
      | Some (Suc n) \<Rightarrow> Inr \<lparr>written = written enc @ [v], room = Some n\<rparr>)"

type_synonym Decoder = "gobval list"

fun dec_int :: "Decoder \<Rightarrow> error + (int \<times> Decoder)" where
  "dec_int [] = Inl EOF"
| "dec_int (GInt i # rest) = Inr (i, rest)"
| "dec_int (_ # rest) = Inl TypeMismatch"

fun dec_bool :: "Decoder \<Rightarrow> error + (bool \<times> Decoder)" where
  "dec_bool [] = Inl EOF"
| "dec_bool (GBool b # rest) = Inr (b, rest)"
| "dec_bool (_ # rest) = Inl TypeMismatch"

fun dec_float :: "Decoder \<Rightarrow> error + (float64 \<times> Decoder)" where
  "dec_float [] = Inl EOF"
| "dec_float (GFloat x # rest) = Inr (x, rest)"
| "dec_float (_ # rest) = Inl TypeMismatch"

fun dec_string :: "Decoder \<Rightarrow> error + (string \<times> Decoder)" where
  "dec_string [] = Inl EOF"
| "dec_string (GString s # rest) = Inr (s, rest)"
| "dec_string (_ # rest) = Inl TypeMismatch"

fun dec_time :: "Decoder \<Rightarrow> error + (int \<times> Decoder)" where
  "dec_time [] = Inl EOF"
| "dec_time (GTime t # rest) = Inr (t, rest)"
| "dec_time (_ # rest) = Inl TypeMismatch"

fun dec_floats :: "Decoder \<Rightarrow> error + (Floats \<times> Decoder)" where
  "dec_floats [] = Inl EOF"
| "dec_floats (GFloats xs # rest) = Inr (xs, rest)"
| "dec_floats (_ # rest) = Inl TypeMismatch"

fun dec_bytes :: "Decoder \<Rightarrow> error + (8 word list \<times> Decoder)" where
  "dec_bytes [] = Inl EOF"
| "dec_bytes (GBytes bs # rest) = Inr (bs, rest)"
| "dec_bytes (_ # rest) = Inl TypeMismatch"

section \<open>The entities\<close>

text \<open>
  \<open>genetics.Organism\<close> with the fields this package reads and writes. The genome type
  \<open>'g\<close> is the collaborator's; \<open>o_Species\<close> is the pointer to the organism's species
  (an address, \<open>None\<close> for nil).
\<close>

record 'g Organism =
  o_Fitness :: float64
  o_IsWinner :: bool
  o_Generation :: int
  o_ExpectedOffspring :: float64
  o_Error :: float64
  o_Genotype :: "'g option"
  o_Species :: "nat option"
  o_Flag :: int

text \<open>The zero value \<open>genetics.Organism{}\<close>.\<close>

definition Organism0 :: "'g Organism" where
  "Organism0 = \<lparr>o_Fitness = Fin 0, o_IsWinner = False, o_Generation = 0,
     o_ExpectedOffspring = Fin 0, o_Error = Fin 0, o_Genotype = None,
     o_Species = None, o_Flag = 0\<rparr>"

text \<open>
  \<open>Generation\<close>. \<open>'c\<close> is what the \<open>Champion\<close> pointer refers to: the codec only
  reads through the pointer and stores a pointer to an organism it has just allocated,
  so there \<open>'c\<close> is the organism itself; the statistics and the queries share
  organisms with the population, and there \<open>'c\<close> is an address into the store of
  organisms.
\<close>

record 'c Generation =
  g_Id :: int
  g_Executed :: int
  g_Duration :: int
  g_Champion :: "'c option"
  g_Solved :: bool
  g_Fitness :: Floats
  g_Age :: Floats
  g_Complexity :: Floats
  g_Diversity :: int
  g_WinnerEvals :: int
  g_WinnerNodes :: int
  g_WinnerGenes :: int
  g_TrialId :: int

definition Generation0 :: "'c Generation" where
  "Generation0 = \<lparr>g_Id = 0, g_Executed = 0, g_Duration = 0, g_Champion = None,
     g_Solved = False, g_Fitness = [], g_Age = [], g_Complexity = [], g_Diversity = 0,
     g_WinnerEvals = 0, g_WinnerNodes = 0, g_WinnerGenes = 0, g_TrialId = 0\<rparr>"

section \<open>Encoding and decoding a Generation\<close>

text \<open>
  \<open>encodeOrganism\<close>. The genome's identity \<open>genId\<close> and its plain-text writer
  \<open>Write\<close> belong to the collaborator package and are parameters.
\<close>

definition encodeOrganism ::
  "('g \<Rightarrow> int) \<Rightarrow> ('g \<Rightarrow> error + 8 word list) \<Rightarrow> Encoder \<Rightarrow> 'g Organism \<Rightarrow> error + Encoder" where
  "encodeOrganism genId Write enc org =
     bindE (enc_Encode (GFloat (o_Fitness org)) enc) (\<lambda>enc.
     bindE (enc_Encode (GBool (o_IsWinner org)) enc) (\<lambda>enc.
     bindE (enc_Encode (GInt (o_Generation org)) enc) (\<lambda>enc.
     bindE (enc_Encode (GFloat (o_ExpectedOffspring org)) enc) (\<lambda>enc.
     bindE (enc_Encode (GFloat (o_Error org)) enc) (\<lambda>enc.
       case o_Genotype org of
         None \<Rightarrow> Inr enc
       | Some gen \<Rightarrow>
           bindE (enc_Encode (GInt (genId gen)) enc) (\<lambda>enc.
           bindE (Write gen) (\<lambda>outBuf.
           enc_Encode (GBytes outBuf) enc)))))))"

definition Generation_Encode ::
  "('g \<Rightarrow> int) \<Rightarrow> ('g \<Rightarrow> error + 8 word list) \<Rightarrow> 'g Organism Generation \<Rightarrow> Encoder \<Rightarrow> error + Encoder" where
  "Generation_Encode genId Write g enc =
     bindE (enc_Encode (GInt (g_Id g)) enc) (\<lambda>enc.
     bindE (enc_Encode (GTime (g_Executed g)) enc) (\<lambda>enc.
     bindE (enc_Encode (GBool (g_Solved g)) enc) (\<lambda>enc.
     bindE (enc_Encode (GFloats (g_Fitness g)) enc) (\<lambda>enc.
     bindE (enc_Encode (GFloats (g_Age g)) enc) (\<lambda>enc.
     bindE (enc_Encode (GFloats (g_Complexity g)) enc) (\<lambda>enc.
     bindE (enc_Encode (GInt (g_Diversity g)) enc) (\<lambda>enc.
     bindE (enc_Encode (GInt (g_WinnerEvals g)) enc) (\<lambda>enc.
     bindE (enc_Encode (GInt (g_WinnerNodes g)) enc) (\<lambda>enc.
     bindE (enc_Encode (GInt (g_WinnerGenes g)) enc) (\<lambda>enc.
     bindE (enc_Encode (GInt (g_Duration g)) enc) (\<lambda>enc.
     bindE (enc_Encode (GInt (g_TrialId g)) enc) (\<lambda>enc.
       case g_Champion g of
         None \<Rightarrow> Inr enc
       | Some org \<Rightarrow> encodeOrganism genId Write enc org))))))))))))"

text \<open>
  \<open>decodeOrganism\<close>. \<open>ReadGenome\<close> is the collaborator's parser, given the bytes and
  the identity read from the stream.
\<close>

definition decodeOrganism ::
  "(8 word list \<Rightarrow> int \<Rightarrow> error + 'g) \<Rightarrow> Decoder \<Rightarrow> error + ('g Organism \<times> Decoder)" where
  "decodeOrganism ReadGenome dec =
     (let org = Organism0 in
      bindE (wrapE ''failed to decode Fitness'' (dec_float dec)) (\<lambda>(v, dec).
      let org = org\<lparr>o_Fitness := v\<rparr> in
      bindE (wrapE ''failed to decode IsWinner'' (dec_bool dec)) (\<lambda>(v, dec).
      let org = org\<lparr>o_IsWinner := v\<rparr> in
      bindE (wrapE ''failed to decode Generation'' (dec_int dec)) (\<lambda>(v, dec).
      let org = org\<lparr>o_Generation := v\<rparr> in
      bindE (wrapE ''failed to decode Generation'' (dec_float dec)) (\<lambda>(v, dec).
      let org = org\<lparr>o_ExpectedOffspring := v\<rparr> in
      bindE (wrapE ''failed to decode Generation'' (dec_float dec)) (\<lambda>(v, dec).
      let org = org\<lparr>o_Error := v\<rparr> in
      bindE (wrapE ''failed to decode genId'' (dec_int dec)) (\<lambda>(genId, dec).
      bindE (wrapE ''failed to decode organism's data'' (dec_bytes dec)) (\<lambda>(data, dec).
      bindE (ReadGenome data genId) (\<lambda>gen.
      Inr (org\<lparr>o_Genotype := Some gen\<rparr>, dec))))))))))"

text \<open>
  \<open>Generation.Decode\<close>, on the receiver \<open>g\<close>. The error of the organism decoder is
  returned as it is.
\<close>

definition Generation_Decode ::
  "(8 word list \<Rightarrow> int \<Rightarrow> error + 'g) \<Rightarrow> 'g Organism Generation \<Rightarrow> Decoder
     \<Rightarrow> error + ('g Organism Generation \<times> Decoder)" where
  "Generation_Decode ReadGenome g dec =
     bindE (wrapE ''failed to decode Id'' (dec_int dec)) (\<lambda>(v, dec).
     let g = g\<lparr>g_Id := v\<rparr> in
     bindE (wrapE ''failed to decode Executed'' (dec_time dec)) (\<lambda>(v, dec).
     let g = g\<lparr>g_Executed := v\<rparr> in
     bindE (wrapE ''failed to decode Solved'' (dec_bool dec)) (\<lambda>(v, dec).
     let g = g\<lparr>g_Solved := v\<rparr> in
     bindE (wrapE ''failed to decode Fitness'' (dec_floats dec)) (\<lambda>(v, dec).
     let g = g\<lparr>g_Fitness := v\<rparr> in
     bindE (wrapE ''failed to decode Age'' (dec_floats dec)) (\<lambda>(v, dec).
     let g = g\<lparr>g_Age := v\<rparr> in
     bindE (wrapE ''failed to decode Complexity'' (dec_floats dec)) (\<lambda>(v, dec).
     let g = g\<lparr>g_Complexity := v\<rparr> in
     bindE (wrapE ''failed to decode Diversity'' (dec_int dec)) (\<lambda>(v, dec).
     let g = g\<lparr>g_Diversity := v\<rparr> in
     bindE (wrapE ''failed to decode WinnerEvals'' (dec_int dec)) (\<lambda>(v, dec).
     let g = g\<lparr>g_WinnerEvals := v\<rparr> in
     bindE (wrapE ''failed to decode WinnerNodes'' (dec_int dec)) (\<lambda>(v, dec).
     let g = g\<lparr>g_WinnerNodes := v\<rparr> in
     bindE (wrapE ''failed to decode WinnerNodes'' (dec_int dec)) (\<lambda>(v, dec).
     let g = g\<lparr>g_WinnerGenes := v\<rparr> in
     bindE (wrapE ''failed to decode Duration'' (dec_int dec)) (\<lambda>(v, dec).
     let g = g\<lparr>g_Duration := v\<rparr> in
     bindE (wrapE ''failed to decode TrialId'' (dec_int dec)) (\<lambda>(v, dec).
     let g = g\<lparr>g_TrialId := v\<rparr> in
     bindE (decodeOrganism ReadGenome dec) (\<lambda>(org, dec).
     Inr (g\<lparr>g_Champion := Some org\<rparr>, dec))))))))))))))"

text \<open>The twelve values \<open>Generation.Encode\<close> writes before the champion.\<close>

definition scalar_fields :: "'c Generation \<Rightarrow> gobval list" where
  "scalar_fields g =
     [GInt (g_Id g), GTime (g_Executed g), GBool (g_Solved g), GFloats (g_Fitness g),
      GFloats (g_Age g), GFloats (g_Complexity g), GInt (g_Diversity g),
      GInt (g_WinnerEvals g), GInt (g_WinnerNodes g), GInt (g_WinnerGenes g),
      GInt (g_Duration g), GInt (g_TrialId g)]"

text \<open>The receiver after its twelve scalar and vector fields have been read from \<open>g\<close>'s.\<close>

definition with_scalars :: "'c Generation \<Rightarrow> 'c Generation \<Rightarrow> 'c Generation" where
  "with_scalars r g =
     r\<lparr>g_Id := g_Id g, g_Executed := g_Executed g, g_Solved := g_Solved g,
       g_Fitness := g_Fitness g, g_Age := g_Age g, g_Complexity := g_Complexity g,
       g_Diversity := g_Diversity g, g_WinnerEvals := g_WinnerEvals g,
       g_WinnerNodes := g_WinnerNodes g, g_WinnerGenes := g_WinnerGenes g,
       g_Duration := g_Duration g, g_TrialId := g_TrialId g\<rparr>"

text \<open>What \<open>encodeOrganism\<close> writes for an organism when every step succeeds.\<close>

definition organism_record ::
  "('g \<Rightarrow> int) \<Rightarrow> ('g \<Rightarrow> error + 8 word list) \<Rightarrow> 'g Organism \<Rightarrow> gobval list" where
  "organism_record genId Write org =
     [GFloat (o_Fitness org), GBool (o_IsWinner org), GInt (o_Generation org),
      GFloat (o_ExpectedOffspring org), GFloat (o_Error org)] @
     (case o_Genotype org of
        None \<Rightarrow> []
      | Some gen \<Rightarrow>
          GInt (genId gen) # (case Write gen of Inl _ \<Rightarrow> [] | Inr bs \<Rightarrow> [GBytes bs]))"

section \<open>Trials and experiments\<close>

text \<open>
  \<open>Trial\<close> is declared in another file of the package; these are the fields that
  \<open>experiment.go\<close> reads. \<open>t_WinnerGeneration\<close> is the cached winner generation.
\<close>

record 'c Trial =
  t_Generations :: "'c Generation list"
  t_WinnerGeneration :: "'c Generation option"
  t_Duration :: int

definition Trial0 :: "'c Trial" where
  "Trial0 = \<lparr>t_Generations = [], t_WinnerGeneration = None, t_Duration = 0\<rparr>"

record 'c Experiment =
  e_Id :: int
  e_Name :: string
  e_RandSeed :: int
  e_Trials :: "'c Trial list"
  e_MaxFitnessScore :: float64

definition Experiment0 :: "'c Experiment" where
  "Experiment0 = \<lparr>e_Id = 0, e_Name = [], e_RandSeed = 0, e_Trials = [],
     e_MaxFitnessScore = Fin 0\<rparr>"

fun encode_generations ::
  "('g \<Rightarrow> int) \<Rightarrow> ('g \<Rightarrow> error + 8 word list) \<Rightarrow> 'g Organism Generation list \<Rightarrow> Encoder
     \<Rightarrow> error + Encoder" where
  "encode_generations genId Write [] enc = Inr enc"
| "encode_generations genId Write (g # gs) enc =
     bindE (Generation_Encode genId Write g enc) (encode_generations genId Write gs)"

text \<open>Modelled from the spec: \<open>Trial.Encode\<close>, defined in another file of the package.
  A Trial sequentially encodes its Generations, count-prefixed.
\<close>

definition Trial_Encode ::
  "('g \<Rightarrow> int) \<Rightarrow> ('g \<Rightarrow> error + 8 word list) \<Rightarrow> 'g Organism Trial \<Rightarrow> Encoder
     \<Rightarrow> error + Encoder" where
  "Trial_Encode genId Write t enc =
     bindE (enc_Encode (GInt (int (length (t_Generations t)))) enc)
       (encode_generations genId Write (t_Generations t))"

fun decode_generations ::
  "(8 word list \<Rightarrow> int \<Rightarrow> error + 'g) \<Rightarrow> nat \<Rightarrow> Decoder
     \<Rightarrow> error + ('g Organism Generation list \<times> Decoder)" where
  "decode_generations ReadGenome 0 dec = Inr ([], dec)"
| "decode_generations ReadGenome (Suc n) dec =
     bindE (Generation_Decode ReadGenome Generation0 dec) (\<lambda>(g, dec).
     bindE (decode_generations ReadGenome n dec) (\<lambda>(gs, dec).
     Inr (g # gs, dec)))"

text \<open>Modelled from the spec: \<open>Trial.Decode\<close>, defined in another file of the package.
  It reads the count and then that many Generations, each into a fresh record, in the
  order they were written; a failure of any of them fails the Trial.
\<close>

definition Trial_Decode ::
  "(8 word list \<Rightarrow> int \<Rightarrow> error + 'g) \<Rightarrow> 'g Organism Trial \<Rightarrow> Decoder
     \<Rightarrow> failure + ('g Organism Trial \<times> Decoder)" where
  "Trial_Decode ReadGenome t dec =
     bindE (liftE (dec_int dec)) (\<lambda>(ngen, dec).
     if ngen < 0 then Inl (Panic MakeSliceLenOutOfRange)
     else bindE (liftE (decode_generations ReadGenome (nat ngen) dec)) (\<lambda>(gs, dec).
       Inr (t\<lparr>t_Generations := gs\<rparr>, dec)))"

fun encode_trials ::
  "('g \<Rightarrow> int) \<Rightarrow> ('g \<Rightarrow> error + 8 word list) \<Rightarrow> 'g Organism Trial list \<Rightarrow> Encoder
     \<Rightarrow> error + Encoder" where
  "encode_trials genId Write [] enc = Inr enc"
| "encode_trials genId Write (t # ts) enc =
     bindE (Trial_Encode genId Write t enc) (encode_trials genId Write ts)"

definition Experiment_Encode ::
  "('g \<Rightarrow> int) \<Rightarrow> ('g \<Rightarrow> error + 8 word list) \<Rightarrow> 'g Organism Experiment \<Rightarrow> Encoder
     \<Rightarrow> error + Encoder" where
  "Experiment_Encode genId Write e enc =
     bindE (enc_Encode (GInt (e_Id e)) enc) (\<lambda>enc.
     bindE (enc_Encode (GString (e_Name e)) enc) (\<lambda>enc.
     bindE (enc_Encode (GInt (int (length (e_Trials e)))) enc) (\<lambda>enc.
     encode_trials genId Write (e_Trials e) enc)))"

fun decode_trials ::
  "(8 word list \<Rightarrow> int \<Rightarrow> error + 'g) \<Rightarrow> nat \<Rightarrow> Decoder
     \<Rightarrow> failure + ('g Organism Trial list \<times> Decoder)" where
  "decode_trials ReadGenome 0 dec = Inr ([], dec)"
| "decode_trials ReadGenome (Suc n) dec =
     bindE (Trial_Decode ReadGenome Trial0 dec) (\<lambda>(trial, dec).
     bindE (decode_trials ReadGenome n dec) (\<lambda>(ts, dec).
     Inr (trial # ts, dec)))"

text \<open>
  \<open>Experiment.Decode\<close>, on the receiver \<open>e\<close>. \<open>make([]Trial, tNum)\<close> panics on a
  negative count.
\<close>

definition Experiment_Decode ::
  "(8 word list \<Rightarrow> int \<Rightarrow> error + 'g) \<Rightarrow> 'g Organism Experiment \<Rightarrow> Decoder
     \<Rightarrow> failure + ('g Organism Experiment \<times> Decoder)" where
  "Experiment_Decode ReadGenome e dec =
     bindE (liftE (dec_int dec)) (\<lambda>(v, dec).
     let e = e\<lparr>e_Id := v\<rparr> in
     bindE (liftE (dec_string dec)) (\<lambda>(v, dec).
     let e = e\<lparr>e_Name := v\<rparr> in
     bindE (liftE (dec_int dec)) (\<lambda>(tNum, dec).
     if tNum < 0 then Inl (Panic MakeSliceLenOutOfRange)
     else bindE (decode_trials ReadGenome (nat tNum) dec) (\<lambda>(ts, dec).
       Inr (e\<lparr>e_Trials := ts\<rparr>, dec)))))"

text \<open>
  What a decoded record holds of the record that was encoded: an organism keeps the five
  scalars and the genome, a Generation its twelve fields and the champion so reduced,
  a Trial its Generations.
\<close>

definition persisted_organism :: "'g Organism \<Rightarrow> 'g Organism" where
  "persisted_organism org = org\<lparr>o_Species := None, o_Flag := 0\<rparr>"

definition persisted_generation :: "'g Organism Generation \<Rightarrow> 'g Organism Generation" where
  "persisted_generation g = g\<lparr>g_Champion := map_option persisted_organism (g_Champion g)\<rparr>"

definition persisted_trial :: "'g Organism Trial \<Rightarrow> 'g Organism Trial" where
  "persisted_trial t = Trial0\<lparr>t_Generations := map persisted_generation (t_Generations t)\<rparr>"

text \<open>Every champion is present and has a genome that its writer and parser take round.\<close>

definition champion_ok ::
  "('g \<Rightarrow> int) \<Rightarrow> ('g \<Rightarrow> error + 8 word list) \<Rightarrow> (8 word list \<Rightarrow> int \<Rightarrow> error + 'g)
     \<Rightarrow> 'g Organism Generation \<Rightarrow> bool" where
  "champion_ok genId Write ReadGenome g =
     (case g_Champion g of
        None \<Rightarrow> False
      | Some org \<Rightarrow>
          (case o_Genotype org of
             None \<Rightarrow> False
           | Some gen \<Rightarrow>
               (case Write gen of
                  Inl _ \<Rightarrow> False
                | Inr bs \<Rightarrow> ReadGenome bs (genId gen) = Inr gen)))"

text \<open>
  The values a Generation, a Trial and an Experiment put on the stream when every step of
  their encoders succeeds.
\<close>

definition generation_record ::
  "('g \<Rightarrow> int) \<Rightarrow> ('g \<Rightarrow> error + 8 word list) \<Rightarrow> 'g Organism Generation \<Rightarrow> gobval list" where
  "generation_record genId Write g =
     scalar_fields g @
     (case g_Champion g of None \<Rightarrow> [] | Some org \<Rightarrow> organism_record genId Write org)"

definition trial_record ::
  "('g \<Rightarrow> int) \<Rightarrow> ('g \<Rightarrow> error + 8 word list) \<Rightarrow> 'g Organism Trial \<Rightarrow> gobval list" where
  "trial_record genId Write t =
     GInt (int (length (t_Generations t))) #
     concat (map (generation_record genId Write) (t_Generations t))"

definition experiment_record ::
  "('g \<Rightarrow> int) \<Rightarrow> ('g \<Rightarrow> error + 8 word list) \<Rightarrow> 'g Organism Experiment \<Rightarrow> gobval list" where
  "experiment_record genId Write e =
     [GInt (e_Id e), GString (e_Name e), GInt (int (length (e_Trials e)))] @
     concat (map (trial_record genId Write) (e_Trials e))"

text \<open>
  The receiver \<open>r\<close> after it has decoded the stream of \<open>e\<close>: the identifier, the name
  and the Trials are read, the random seed and the maximal fitness score are the
  receiver's own.
\<close>

definition persisted_experiment ::
  "'g Organism Experiment \<Rightarrow> 'g Organism Experiment \<Rightarrow> 'g Organism Experiment" where
  "persisted_experiment r e =
     r\<lparr>e_Id := e_Id e, e_Name := e_Name e, e_Trials := map persisted_trial (e_Trials e)\<rparr>"

text \<open>Every Generation of every Trial has a champion.\<close>

definition champions_present :: "'c Experiment \<Rightarrow> bool" where
  "champions_present e =
     list_all (\<lambda>t. list_all (\<lambda>g. g_Champion g \<noteq> None) (t_Generations t)) (e_Trials e)"

section \<open>Statistics of a population\<close>

text \<open>
  Organisms live in a store and are referred to by address, as the \<open>*Organism\<close>
  pointers of the population do. A species lists the addresses of its organisms.
\<close>

type_synonym 'g store = "nat \<Rightarrow> 'g Organism"

record Species =
  s_Age :: int
  s_Organisms :: "nat list"

text \<open>The organism a Generation's \<open>Champion\<close> pointer leads to, in a given store.\<close>

definition ChampionOrganism :: "'g store \<Rightarrow> nat Generation \<Rightarrow> 'g Organism option" where
  "ChampionOrganism h g = map_option h (g_Champion g)"

text \<open>The assignment \<open>xs[i] = v\<close> to a slice.\<close>

definition store_at :: "Floats \<Rightarrow> nat \<Rightarrow> float64 \<Rightarrow> panic + Floats" where
  "store_at xs i v = (if i < length xs then Inr (xs[i := v]) else Inl IndexOutOfRange)"

text \<open>
  The body of the loop of \<open>FillPopulationStatistics\<close>, for the species at index
  \<open>i\<close>. \<open>sortReverse\<close> stands for \<open>sort.Sort(sort.Reverse(organisms))\<close> under
  the collaborator's ordering of organisms, \<open>organismComplexity\<close> for the function of
  that name; both are defined elsewhere in the repository. The species comes back with its
  organisms in sorted order.
\<close>

definition fill_body ::
  "('g store \<Rightarrow> nat list \<Rightarrow> nat list) \<Rightarrow> ('g Organism \<Rightarrow> int) \<Rightarrow> 'g store \<Rightarrow> nat
     \<Rightarrow> Species \<Rightarrow> float64 \<times> nat Generation
     \<Rightarrow> panic + (float64 \<times> nat Generation \<times> Species)" where
  "fill_body sortReverse organismComplexity h i currSpecies state =
     (case state of (maxFitness, g) \<Rightarrow>
      bindE (store_at (g_Age g) i (float64_of_int (s_Age currSpecies))) (\<lambda>age.
      let g = g\<lparr>g_Age := age\<rparr>;
          organisms = sortReverse h (s_Organisms currSpecies)
      in case organisms of
           [] \<Rightarrow> Inl IndexOutOfRange
         | first # _ \<Rightarrow>
             bindE (store_at (g_Complexity g) i
                      (float64_of_int (organismComplexity (h first)))) (\<lambda>complexity.
             let g = g\<lparr>g_Complexity := complexity\<rparr> in
             bindE (store_at (g_Fitness g) i (o_Fitness (h first))) (\<lambda>fitness.
             let g = g\<lparr>g_Fitness := fitness\<rparr> in
             if \<not> g_Solved g \<and> fgt (o_Fitness (h first)) maxFitness
             then Inr (o_Fitness (h first), g\<lparr>g_Champion := Some first\<rparr>,
                       currSpecies\<lparr>s_Organisms := organisms\<rparr>)
             else Inr (maxFitness, g, currSpecies\<lparr>s_Organisms := organisms\<rparr>)))))"

fun fill_loop ::
  "('g store \<Rightarrow> nat list \<Rightarrow> nat list) \<Rightarrow> ('g Organism \<Rightarrow> int) \<Rightarrow> 'g store \<Rightarrow> nat
     \<Rightarrow> Species list \<Rightarrow> float64 \<times> nat Generation
     \<Rightarrow> panic + (nat Generation \<times> Species list)" where
  "fill_loop sortReverse organismComplexity h i [] state = Inr (snd state, [])"
| "fill_loop sortReverse organismComplexity h i (currSpecies # rest) state =
     bindE (fill_body sortReverse organismComplexity h i currSpecies state)
       (\<lambda>(maxFitness, g, sorted).
     bindE (fill_loop sortReverse organismComplexity h (Suc i) rest (maxFitness, g))
       (\<lambda>(g, rest). Inr (g, sorted # rest)))"

definition FillPopulationStatistics ::
  "('g store \<Rightarrow> nat list \<Rightarrow> nat list) \<Rightarrow> ('g Organism \<Rightarrow> int) \<Rightarrow> 'g store
     \<Rightarrow> nat Generation \<Rightarrow> Species list \<Rightarrow> panic + (nat Generation \<times> Species list)" where
  "FillPopulationStatistics sortReverse organismComplexity h g pop =
     (let maxFitness = float64_of_int MinInt64;
          g = g\<lparr>g_Diversity := int (length pop)\<rparr>;
          g = g\<lparr>g_Age := replicate (nat (g_Diversity g)) (Fin 0)\<rparr>;
          g = g\<lparr>g_Complexity := replicate (nat (g_Diversity g)) (Fin 0)\<rparr>;
          g = g\<lparr>g_Fitness := replicate (nat (g_Diversity g)) (Fin 0)\<rparr>
      in fill_loop sortReverse organismComplexity h 0 pop (maxFitness, g))"

text \<open>The organisms of a population, by address.\<close>

definition population_organisms :: "Species list \<Rightarrow> nat set" where
  "population_organisms pop = (\<Union>s \<in> set pop. set (s_Organisms s))"

text \<open>
  A species after the sort of its organisms, and its representative: the organism that
  \<open>Organisms[0]\<close> points to.
\<close>

definition sorted_species :: "('g store \<Rightarrow> nat list \<Rightarrow> nat list) \<Rightarrow> 'g store \<Rightarrow> Species \<Rightarrow> Species" where
  "sorted_species sortReverse h s = s\<lparr>s_Organisms := sortReverse h (s_Organisms s)\<rparr>"

definition representative :: "Species \<Rightarrow> nat option" where
  "representative s = (case s_Organisms s of [] \<Rightarrow> None | first # _ \<Rightarrow> Some first)"

text \<open>
  No representative of the given species has a fitness above \<open>m\<close>; every
  representative of the given species has a fitness below \<open>m\<close>.
\<close>

definition unbeaten :: "'g store \<Rightarrow> Species list \<Rightarrow> float64 \<Rightarrow> bool" where
  "unbeaten h ss m =
     list_all (\<lambda>s. case representative s of
                      None \<Rightarrow> True
                    | Some b \<Rightarrow> \<not> fgt (o_Fitness (h b)) m) ss"

definition all_below :: "'g store \<Rightarrow> Species list \<Rightarrow> float64 \<Rightarrow> bool" where
  "all_below h ss m =
     list_all (\<lambda>s. case representative s of
                      None \<Rightarrow> True
                    | Some b \<Rightarrow> fgt m (o_Fitness (h b))) ss"

definition fsum :: "Floats \<Rightarrow> float64" where
  "fsum xs = foldl fadd (Fin 0) xs"

text \<open>Modelled from the spec: \<open>Floats.Mean\<close>; the type \<open>Floats\<close> and its methods are
  defined in another file of the package. It is the arithmetic mean, and on no values it is 0.
\<close>

definition Floats_Mean :: "Floats \<Rightarrow> float64" where
  "Floats_Mean xs =
     (if xs = [] then Fin 0 else fdiv (fsum xs) (float64_of_int (int (length xs))))"

definition Average :: "'c Generation \<Rightarrow> float64 \<times> float64 \<times> float64" where
  "Average g =
     (let fitness = Floats_Mean (g_Fitness g);
          age = Floats_Mean (g_Age g);
          complexity = Floats_Mean (g_Complexity g)
      in (fitness, age, complexity))"

definition ChampionComplexity ::
  "('g Organism \<Rightarrow> int) \<Rightarrow> 'g store \<Rightarrow> nat Generation \<Rightarrow> int" where
  "ChampionComplexity organismComplexity h g =
     (case g_Champion g of None \<Rightarrow> MaxInt | Some a \<Rightarrow> organismComplexity (h a))"

section \<open>Queries over an experiment\<close>

text \<open>A linear scan for the organism of maximum fitness; the first maximum is kept.\<close>

fun max_fitness_scan :: "'g store \<Rightarrow> nat option \<Rightarrow> nat list \<Rightarrow> nat option" where
  "max_fitness_scan h best [] = best"
| "max_fitness_scan h None (a # as) = max_fitness_scan h (Some a) as"
| "max_fitness_scan h (Some b) (a # as) =
     max_fitness_scan h (if fgt (o_Fitness (h a)) (o_Fitness (h b)) then Some a else Some b) as"

text \<open>The champions of a Trial's Generations, only the winner-flagged ones on request.\<close>

definition candidates :: "'g store \<Rightarrow> bool \<Rightarrow> nat Trial \<Rightarrow> nat list" where
  "candidates h onlySolvers t =
     concat (map (\<lambda>g. case g_Champion g of
                        None \<Rightarrow> []
                      | Some a \<Rightarrow>
                          if onlySolvers then (if o_IsWinner (h a) then [a] else []) else [a])
                 (t_Generations t))"

text \<open>Modelled from the spec: \<open>Trial.BestOrganism\<close>, defined in another file of the package.
  A linear scan for maximum fitness, optionally filtered to organisms flagged as winners;
  \<open>None\<close> is the not-found signal when no candidate qualifies.
\<close>

definition Trial_BestOrganism :: "'g store \<Rightarrow> bool \<Rightarrow> nat Trial \<Rightarrow> nat option" where
  "Trial_BestOrganism h onlySolvers t = max_fitness_scan h None (candidates h onlySolvers t)"

text \<open>
  The loop of \<open>Experiment.BestOrganism\<close>: \<open>org.Flag = i\<close> writes through the pointer,
  that is, into the store.
\<close>

fun best_loop ::
  "'g store \<Rightarrow> bool \<Rightarrow> nat \<Rightarrow> nat Trial list \<Rightarrow> nat list \<Rightarrow> 'g store \<times> nat list" where
  "best_loop h onlySolvers i [] orgs = (h, orgs)"
| "best_loop h onlySolvers i (t # ts) orgs =
     (case Trial_BestOrganism h onlySolvers t of
        None \<Rightarrow> best_loop h onlySolvers (Suc i) ts orgs
      | Some org \<Rightarrow>
          best_loop (h(org := (h org)\<lparr>o_Flag := int i\<rparr>)) onlySolvers (Suc i) ts (orgs @ [org]))"

text \<open>
  \<open>Experiment.BestOrganism\<close>: the store after the call, and the organism, the trial
  index and the found flag it returns.
\<close>

definition Experiment_BestOrganism ::
  "('g store \<Rightarrow> nat list \<Rightarrow> nat list) \<Rightarrow> 'g store \<Rightarrow> bool \<Rightarrow> nat Experiment
     \<Rightarrow> panic + ('g store \<times> nat option \<times> int \<times> bool)" where
  "Experiment_BestOrganism sortReverse h onlySolvers e =
     (let (h, orgs) = best_loop h onlySolvers 0 (e_Trials e) [] in
      if length orgs > 0 then
        (case sortReverse h orgs of
           [] \<Rightarrow> Inl IndexOutOfRange
         | first # _ \<Rightarrow> Inr (h, Some first, o_Flag (h first), True))
      else Inr (h, None, - 1, False))"

text \<open>Two stores that differ at most in the \<open>Flag\<close> of their organisms.\<close>

definition same_but_Flag :: "'g store \<Rightarrow> 'g store \<Rightarrow> bool" where
  "same_but_Flag h h' = (\<forall>a. (h' a)\<lparr>o_Flag := 0\<rparr> = (h a)\<lparr>o_Flag := 0\<rparr>)"

section \<open>Analytics\<close>

text \<open>
  \<open>Trial.Solved\<close> and \<open>Trial.AvgEpochDuration\<close> and the constant \<open>EmptyDuration\<close>
  are defined in another file of the package; the functions below take them as the
  parameters \<open>solved\<close>, \<open>avgEpoch\<close> and \<open>EmptyDuration\<close>.
\<close>

definition TrialsSolved :: "('c Trial \<Rightarrow> bool) \<Rightarrow> 'c Experiment \<Rightarrow> int" where
  "TrialsSolved solved e =
     foldl (\<lambda>count t. if solved t then count + 1 else count) 0 (e_Trials e)"

definition SuccessRate :: "('c Trial \<Rightarrow> bool) \<Rightarrow> 'c Experiment \<Rightarrow> float64" where
  "SuccessRate solved e =
     (let solvedCount = float64_of_int (TrialsSolved solved e) in
      if length (e_Trials e) > 0
      then fdiv solvedCount (float64_of_int (int (length (e_Trials e))))
      else Fin 0)"

definition Experiment_AvgEpochDuration ::
  "('c Trial \<Rightarrow> int) \<Rightarrow> int \<Rightarrow> 'c Experiment \<Rightarrow> int" where
  "Experiment_AvgEpochDuration avgEpoch EmptyDuration e =
     (let total = foldl (\<lambda>total t. wrap64 (total + avgEpoch t)) 0 (e_Trials e) in
      if length (e_Trials e) > 0
      then quot64 total (int (length (e_Trials e)))
      else EmptyDuration)"

definition AvgGenerationsPerTrial :: "'c Experiment \<Rightarrow> float64" where
  "AvgGenerationsPerTrial e =
     (let total = foldl (\<lambda>total t. fadd total (float64_of_int (int (length (t_Generations t)))))
                    (Fin 0) (e_Trials e) in
      if length (e_Trials e) > 0
      then fdiv total (float64_of_int (int (length (e_Trials e))))
      else Fin 0)"

text \<open>Modelled from the spec: \<open>Trial.WinnerStatistics\<close>, defined in another file of
  the package. It returns the cached winner generation's node count, gene count, evaluations
  and diversity, or locates the first Generation with \<open>Solved\<close> set and memoizes it on
  the Trial; \<open>None\<close> stands for the values it yields when there is no such Generation.
\<close>

definition Trial_WinnerStatistics ::
  "'c Trial \<Rightarrow> 'c Trial \<times> (int \<times> int \<times> int \<times> int) option" where
  "Trial_WinnerStatistics t =
     (let stats = (\<lambda>w. (g_WinnerNodes w, g_WinnerGenes w, g_WinnerEvals w, g_Diversity w)) in
      case t_WinnerGeneration t of
        Some w \<Rightarrow> (t, Some (stats w))
      | None \<Rightarrow>
          (case find g_Solved (t_Generations t) of
             None \<Rightarrow> (t, None)
           | Some w \<Rightarrow> (t\<lparr>t_WinnerGeneration := Some w\<rparr>, Some (stats w))))"

text \<open>
  The loop of \<open>EfficiencyScore\<close> over the trials, with the running sums
  \<open>meanComplexity\<close>, \<open>meanFitness\<close> and \<open>count\<close>. Reading the champion of a missing
  winner generation, or the fitness of a missing champion, panics.
\<close>

fun winners_loop ::
  "(nat Trial \<Rightarrow> bool) \<Rightarrow> ('g Organism \<Rightarrow> int) \<Rightarrow> 'g store \<Rightarrow> nat Trial list
     \<Rightarrow> float64 \<times> float64 \<times> float64 \<Rightarrow> panic + (float64 \<times> float64 \<times> float64)" where
  "winners_loop solved organismComplexity h [] acc = Inr acc"
| "winners_loop solved organismComplexity h (t # ts) (meanComplexity, meanFitness, count) =
     (if solved t then
        (let t = (if t_WinnerGeneration t = None then fst (Trial_WinnerStatistics t) else t) in
         case t_WinnerGeneration t of
           None \<Rightarrow> Inl NilPointerDereference
         | Some w \<Rightarrow>
             (let meanComplexity =
                    fadd meanComplexity
                      (float64_of_int (ChampionComplexity organismComplexity h w)) in
              case g_Champion w of
                None \<Rightarrow> Inl NilPointerDereference
              | Some a \<Rightarrow>
                  winners_loop solved organismComplexity h ts
                    (meanComplexity, fadd meanFitness (o_Fitness (h a)), fadd count (Fin 1))))
      else winners_loop solved organismComplexity h ts (meanComplexity, meanFitness, count))"

definition penaltyScore ::
  "('c Trial \<Rightarrow> int) \<Rightarrow> int \<Rightarrow> 'c Experiment \<Rightarrow> float64 \<Rightarrow> float64" where
  "penaltyScore avgEpoch EmptyDuration e meanComplexity =
     fmul (fmul (fmul (Seconds (Experiment_AvgEpochDuration avgEpoch EmptyDuration e))
                      (Fin 1000))
                (AvgGenerationsPerTrial e))
          meanComplexity"

definition EfficiencyScore ::
  "(nat Trial \<Rightarrow> bool) \<Rightarrow> (nat Trial \<Rightarrow> int) \<Rightarrow> int \<Rightarrow> ('g Organism \<Rightarrow> int) \<Rightarrow> 'g store
     \<Rightarrow> nat Experiment \<Rightarrow> panic + float64" where
  "EfficiencyScore solved avgEpoch EmptyDuration organismComplexity h e =
     bindE (if length (e_Trials e) > 1
            then bindE (winners_loop solved organismComplexity h (e_Trials e)
                          (Fin 0, Fin 0, Fin 0))
                   (\<lambda>(meanComplexity, meanFitness, count).
                      Inr (fdiv meanComplexity count, fdiv meanFitness count))
            else Inr (Fin 0, Fin 0))
       (\<lambda>(meanComplexity, meanFitness).
          let fitnessScore =
                (if fgt (e_MaxFitnessScore e) (Fin 0)
                 then fmul (fdiv meanFitness (e_MaxFitnessScore e)) (Fin 100)
                 else meanFitness);
              score = penaltyScore avgEpoch EmptyDuration e meanComplexity
          in Inr (if fgt score (Fin 0)
                  then fdiv (fmul (SuccessRate solved e) fitnessScore) (flog score)
                  else score))"

text \<open>
  The winner generation \<open>EfficiencyScore\<close> reads for a solved Trial: the cached one, or
  the one \<open>WinnerStatistics\<close> finds.
\<close>

definition winner_of :: "'c Trial \<Rightarrow> 'c Generation option" where
  "winner_of t =
     (if t_WinnerGeneration t = None
      then t_WinnerGeneration (fst (Trial_WinnerStatistics t))
      else t_WinnerGeneration t)"

text \<open>The address of the champion of a Trial's winner generation, when both exist.\<close>

definition winner_champion :: "nat Trial \<Rightarrow> nat option" where
  "winner_champion t = (case winner_of t of None \<Rightarrow> None | Some w \<Rightarrow> g_Champion w)"

text \<open>
  The complexity and the fitness of the champion of a solved Trial's winner generation.
\<close>

definition winner_complexity :: "('g Organism \<Rightarrow> int) \<Rightarrow> 'g store \<Rightarrow> nat Trial \<Rightarrow> float64" where
  "winner_complexity organismComplexity h t =
     (case winner_champion t of
        None \<Rightarrow> Fin 0
      | Some a \<Rightarrow> float64_of_int (organismComplexity (h a)))"

definition winner_fitness :: "'g store \<Rightarrow> nat Trial \<Rightarrow> float64" where
  "winner_fitness h t =
     (case winner_champion t of None \<Rightarrow> Fin 0 | Some a \<Rightarrow> o_Fitness (h a))"

text \<open>
  The efficiency score in the words of its description: the means of champion complexity
  and fitness over the solved Trials, the fitness rescaled by the maximal fitness score
  when that is positive, the penalty, and the quotient by the logarithm of a positive
  penalty; a penalty that is not positive is the score as it is.
\<close>

definition efficiency_formula ::
  "(nat Trial \<Rightarrow> bool) \<Rightarrow> (nat Trial \<Rightarrow> int) \<Rightarrow> int \<Rightarrow> ('g Organism \<Rightarrow> int) \<Rightarrow> 'g store
     \<Rightarrow> nat Experiment \<Rightarrow> float64" where
  "efficiency_formula solved avgEpoch EmptyDuration organismComplexity h e =
     (let winners = filter solved (e_Trials e);
          count = float64_of_int (int (length winners));
          meanComplexity = fdiv (fsum (map (winner_complexity organismComplexity h) winners)) count;
          meanFitness = fdiv (fsum (map (winner_fitness h) winners)) count;
          scaledFitness =
            (if fgt (e_MaxFitnessScore e) (Fin 0)
             then fmul (fdiv meanFitness (e_MaxFitnessScore e)) (Fin 100)
             else meanFitness);
          penalty =
            fmul (fmul (fmul (Seconds (Experiment_AvgEpochDuration avgEpoch EmptyDuration e))
                             (Fin 1000))
                       (AvgGenerationsPerTrial e))
                 meanComplexity
      in if fgt penalty (Fin 0)
         then fdiv (fmul (SuccessRate solved e) scaledFitness) (flog penalty)
         else penalty)"

section \<open>Sample inputs\<close>

text \<open>
  Concrete values on which the properties below are exercised. In the sample store the
  organism at address \<open>a\<close> has fitness \<open>a / 10\<close>, and the one at address 9 is the
  only one flagged as a winner.
\<close>

definition sample_store :: "unit store" where
  "sample_store a =
     Organism0\<lparr>o_Fitness := Fin (real a / 10), o_IsWinner := (a = 9), o_Genotype := Some ()\<rparr>"

definition sample_complexity :: "unit Organism \<Rightarrow> int" where
  "sample_complexity org = 10"

text \<open>A sort by descending fitness, by insertion.\<close>

fun insert_desc :: "'g store \<Rightarrow> nat \<Rightarrow> nat list \<Rightarrow> nat list" where
  "insert_desc h a [] = [a]"
| "insert_desc h a (b # bs) =
     (if fgt (o_Fitness (h a)) (o_Fitness (h b)) then a # b # bs else b # insert_desc h a bs)"

definition sample_sortReverse :: "'g store \<Rightarrow> nat list \<Rightarrow> nat list" where
  "sample_sortReverse h xs = foldr (insert_desc h) xs []"

text \<open>A Trial counts as solved when one of its Generations is.\<close>

definition sample_solved :: "'c Trial \<Rightarrow> bool" where
  "sample_solved t = list_ex g_Solved (t_Generations t)"

definition sample_generation :: "nat \<Rightarrow> bool \<Rightarrow> int \<Rightarrow> nat Generation" where
  "sample_generation champion solved duration =
     Generation0\<lparr>g_Champion := Some champion, g_Solved := solved, g_Duration := duration\<rparr>"

definition solved_trial :: "nat Trial" where
  "solved_trial =
     Trial0\<lparr>t_Generations :=
       [sample_generation 3 False 2000000, sample_generation 9 True 2000000]\<rparr>"

definition unsolved_trial :: "nat Trial" where
  "unsolved_trial =
     Trial0\<lparr>t_Generations :=
       [sample_generation 3 False 2000000, sample_generation 5 False 2000000]\<rparr>"

definition all_solved_experiment :: "nat Experiment" where
  "all_solved_experiment = Experiment0\<lparr>e_Trials := [solved_trial, solved_trial]\<rparr>"

definition none_solved_experiment :: "nat Experiment" where
  "none_solved_experiment = Experiment0\<lparr>e_Trials := [unsolved_trial, unsolved_trial]\<rparr>"

definition sample_population :: "Species list" where
  "sample_population =
     [\<lparr>s_Age = 3, s_Organisms = [1, 5]\<rparr>, \<lparr>s_Age = 1, s_Organisms = [2]\<rparr>]"

text \<open>What \<open>FillPopulationStatistics\<close> makes of the sample population.\<close>

definition filled_generation :: "nat Generation" where
  "filled_generation =
     Generation0\<lparr>g_Champion := Some 5,
       g_Fitness := [Fin (1 / 2), Fin (1 / 5)], g_Age := [Fin 3, Fin 1],
       g_Complexity := [Fin 10, Fin 10], g_Diversity := 2\<rparr>"

definition sorted_population :: "Species list" where
  "sorted_population =
     [\<lparr>s_Age = 3, s_Organisms = [5, 1]\<rparr>, \<lparr>s_Age = 1, s_Organisms = [2]\<rparr>]"

text \<open>
  Two Trials, the first solved by the organism at address 9 (fitness 0.9, complexity
  10), the second unsolved, with a maximal fitness score of 1.
\<close>

definition scenario_experiment :: "nat Experiment" where
  "scenario_experiment =
     Experiment0\<lparr>e_Trials := [solved_trial, unsolved_trial], e_MaxFitnessScore := Fin 1\<rparr>"

text \<open>The sample store after \<open>BestOrganism(false)\<close> on that experiment.\<close>

definition flagged_store :: "unit store" where
  "flagged_store =
     sample_store(9 := (sample_store 9)\<lparr>o_Flag := 0\<rparr>, 5 := (sample_store 5)\<lparr>o_Flag := 1\<rparr>)"

text \<open>
  The mean of the durations of a Trial's Generations, as a stand-in for
  \<open>Trial.AvgEpochDuration\<close> on the sample inputs.
\<close>

definition sample_avgEpoch :: "'c Trial \<Rightarrow> int" where
  "sample_avgEpoch t =
     (if t_Generations t = [] then 0
      else quot64 (foldl (\<lambda>total g. wrap64 (total + g_Duration g)) 0 (t_Generations t))
             (int (length (t_Generations t))))"

text \<open>The scenario again, with every epoch duration negative (two milliseconds back).\<close>

definition backdated_experiment :: "nat Experiment" where
  "backdated_experiment =
     Experiment0\<lparr>e_Trials :=
       [Trial0\<lparr>t_Generations :=
          [sample_generation 3 False (- 2000000), sample_generation 9 True (- 2000000)]\<rparr>,
        Trial0\<lparr>t_Generations :=
          [sample_generation 3 False (- 2000000), sample_generation 5 False (- 2000000)]\<rparr>],
       e_MaxFitnessScore := Fin 1\<rparr>"

text \<open>
  A genome that is a number: its identity is the number, its text one byte, and the
  parser takes the genome from the identity, given a text that is not empty.
\<close>

definition sample_genId :: "nat \<Rightarrow> int" where
  "sample_genId gen = int gen"

definition sample_Write :: "nat \<Rightarrow> error + 8 word list" where
  "sample_Write gen = Inr [of_nat gen]"

definition sample_ReadGenome :: "8 word list \<Rightarrow> int \<Rightarrow> error + nat" where
  "sample_ReadGenome data genId = (if data = [] then Inl GenomeError else Inr (nat genId))"

text \<open>An experiment of one Trial of one Generation with its champion, and its stream.\<close>

definition stored_champion :: "nat Organism" where
  "stored_champion = Organism0\<lparr>o_Fitness := Fin 1, o_Genotype := Some 4\<rparr>"

definition stored_generation :: "nat Organism Generation" where
  "stored_generation =
     Generation0\<lparr>g_Id := 1, g_Champion := Some stored_champion, g_Fitness := [Fin 1],
       g_Age := [Fin 2], g_Complexity := [Fin 3], g_Diversity := 1\<rparr>"

definition stored_experiment :: "nat Organism Experiment" where
  "stored_experiment =
     \<lparr>e_Id = 7, e_Name = ''xor'', e_RandSeed = 42,
      e_Trials = [Trial0\<lparr>t_Generations := [stored_generation]\<rparr>],
      e_MaxFitnessScore = Fin 16\<rparr>"

definition stored_stream :: "gobval list" where
  "stored_stream =
     [GInt 7, GString ''xor'', GInt 1,
      GInt 1,
      GInt 1, GTime 0, GBool False, GFloats [Fin 1], GFloats [Fin 2], GFloats [Fin 3],
      GInt 1, GInt 0, GInt 0, GInt 0, GInt 0, GInt 0,
      GFloat (Fin 1), GBool False, GInt 0, GFloat (Fin 0), GFloat (Fin 0), GInt 4, GBytes [4]]"

definition decoded_experiment :: "nat Organism Experiment" where
  "decoded_experiment =
     \<lparr>e_Id = 7, e_Name = ''xor'', e_RandSeed = 0,
      e_Trials = [Trial0\<lparr>t_Generations := [stored_generation]\<rparr>],
      e_MaxFitnessScore = Fin 0\<rparr>"

section \<open>Properties\<close>

subsection \<open>Sequencing\<close>

lemma bindE_Inr_iff: "bindE m f = Inr y \<longleftrightarrow> (\<exists>x. m = Inr x \<and> f x = Inr y)"
  by (cases m) (simp_all add: bindE_def)

lemma bindE_Inr [simp]: "bindE (Inr x) f = f x"
  by (simp add: bindE_def)

lemma bindE_Inl [simp]: "bindE (Inl e) f = Inl e"
  by (simp add: bindE_def)

lemma wrapE_Inr [simp]: "wrapE msg (Inr x) = Inr x"
  by (simp add: wrapE_def)

lemma wrapE_Inl [simp]: "wrapE msg (Inl e) = Inl (Wrap e msg)"
  by (simp add: wrapE_def)

lemma enc_Encode_written:
  "enc_Encode v enc = Inr enc' \<Longrightarrow> written enc' = written enc @ [v]"
  by (auto simp: enc_Encode_def split: option.splits nat.splits)

lemma enc_Encode_unbounded:
  "room enc = None \<Longrightarrow> enc_Encode v enc = Inr (enc\<lparr>written := written enc @ [v]\<rparr>)"
  by (simp add: enc_Encode_def)

lemma bind_encE:
  assumes "bindE (enc_Encode v enc) f = Inr enc'"
  obtains e1 where "written e1 = written enc @ [v]" and "f e1 = Inr enc'"
  using assms by (auto simp: bindE_Inr_iff dest: enc_Encode_written)

lemma encodeOrganism_written:
  assumes "encodeOrganism genId Write enc org = Inr enc'"
  shows "written enc' = written enc @ organism_record genId Write org"
proof -
  from assms obtain e5 where
    e5: "written e5 = written enc @ [GFloat (o_Fitness org), GBool (o_IsWinner org),
           GInt (o_Generation org), GFloat (o_ExpectedOffspring org), GFloat (o_Error org)]"
    and k: "(case o_Genotype org of None \<Rightarrow> Inr e5
             | Some gen \<Rightarrow> bindE (enc_Encode (GInt (genId gen)) e5) (\<lambda>enc.
                 bindE (Write gen) (\<lambda>outBuf. enc_Encode (GBytes outBuf) enc))) = Inr enc'"
    unfolding encodeOrganism_def by (elim bind_encE) simp
  show ?thesis
  proof (cases "o_Genotype org")
    case None
    with k e5 show ?thesis by (simp add: organism_record_def)
  next
    case (Some gen)
    with k obtain e6 where e6: "written e6 = written e5 @ [GInt (genId gen)]"
      and k2: "bindE (Write gen) (\<lambda>outBuf. enc_Encode (GBytes outBuf) e6) = Inr enc'"
      by (auto elim: bind_encE)
    from k2 obtain bs where bs: "Write gen = Inr bs" and "enc_Encode (GBytes bs) e6 = Inr enc'"
      by (auto simp: bindE_Inr_iff)
    then have "written enc' = written e6 @ [GBytes bs]"
      by (simp add: enc_Encode_written)
    with e5 e6 bs Some show ?thesis by (simp add: organism_record_def)
  qed
qed

lemma Generation_Encode_written:
  assumes "Generation_Encode genId Write g enc = Inr enc'"
  shows "written enc' = written enc @ scalar_fields g @
           (case g_Champion g of None \<Rightarrow> [] | Some org \<Rightarrow> organism_record genId Write org)"
proof -
  from assms obtain e12 where
    e12: "written e12 = written enc @ scalar_fields g"
    and k: "(case g_Champion g of None \<Rightarrow> Inr e12
             | Some org \<Rightarrow> encodeOrganism genId Write e12 org) = Inr enc'"
    unfolding Generation_Encode_def scalar_fields_def by (elim bind_encE) simp
  show ?thesis
  proof (cases "g_Champion g")
    case None
    with k e12 show ?thesis by simp
  next
    case (Some org)
    with k e12 show ?thesis by (simp add: encodeOrganism_written)
  qed
qed

lemma Generation_Encode_nil_unbounded:
  assumes "g_Champion g = None" "room enc = None"
  shows "Generation_Encode genId Write g enc = Inr (enc\<lparr>written := written enc @ scalar_fields g\<rparr>)"
  using assms unfolding Generation_Encode_def scalar_fields_def
  by (simp add: enc_Encode_unbounded)

lemma Generation_Decode_scalars:
  "Generation_Decode ReadGenome r (scalar_fields g @ rest) =
     bindE (decodeOrganism ReadGenome rest)
       (\<lambda>(org, dec). Inr ((with_scalars r g)\<lparr>g_Champion := Some org\<rparr>, dec))"
  unfolding Generation_Decode_def scalar_fields_def with_scalars_def
  by simp

lemma decodeOrganism_Nil: "decodeOrganism ReadGenome [] = Inl (Wrap EOF ''failed to decode Fitness'')"
  by (simp add: decodeOrganism_def)

subsection \<open>The champion slot of the stream\<close>

text \<open>
  C1. A Generation whose champion is nil is encoded as its twelve scalar and vector
  fields and nothing else: whenever the encoder returns, that is what it has written, and
  into a buffer it does return. The decoder, having read the twelve fields, still calls
  the organism decoder on whatever follows; on the bytes of the nil-champion Generation
  alone it fails, looking for the champion's fitness.
\<close>

theorem nil_champion_encode_decode_asymmetry:
  assumes "g_Champion g = None"
  shows "(\<forall>enc'. Generation_Encode genId Write g enc = Inr enc'
            \<longrightarrow> written enc' = written enc @ scalar_fields g)
       \<and> (room enc = None \<longrightarrow>
            Generation_Encode genId Write g enc
              = Inr (enc\<lparr>written := written enc @ scalar_fields g\<rparr>))
       \<and> Generation_Decode ReadGenome r (scalar_fields g @ rest)
            = bindE (decodeOrganism ReadGenome rest)
                (\<lambda>(org, dec). Inr ((with_scalars r g)\<lparr>g_Champion := Some org\<rparr>, dec))
       \<and> Generation_Decode ReadGenome r (scalar_fields g)
            = Inl (Wrap EOF ''failed to decode Fitness'')"
proof (intro conjI allI impI)
  fix enc'
  assume "Generation_Encode genId Write g enc = Inr enc'"
  from Generation_Encode_written [OF this] assms
  show "written enc' = written enc @ scalar_fields g" by simp
next
  assume "room enc = None"
  with assms show "Generation_Encode genId Write g enc
      = Inr (enc\<lparr>written := written enc @ scalar_fields g\<rparr>)"
    by (rule Generation_Encode_nil_unbounded)
next
  show "Generation_Decode ReadGenome r (scalar_fields g @ rest)
      = bindE (decodeOrganism ReadGenome rest)
          (\<lambda>(org, dec). Inr ((with_scalars r g)\<lparr>g_Champion := Some org\<rparr>, dec))"
    by (rule Generation_Decode_scalars)
next
  have "Generation_Decode ReadGenome r (scalar_fields g @ [])
      = bindE (decodeOrganism ReadGenome [])
          (\<lambda>(org, dec). Inr ((with_scalars r g)\<lparr>g_Champion := Some org\<rparr>, dec))"
    by (rule Generation_Decode_scalars)
  then show "Generation_Decode ReadGenome r (scalar_fields g)
      = Inl (Wrap EOF ''failed to decode Fitness'')"
    by (simp add: decodeOrganism_Nil)
qed

theorem nil_champion_encode_decode_asymmetry_witness:
  "g_Champion (Generation0 :: unit Organism Generation) = None
   \<and> Generation_Encode (\<lambda>_. 0) (\<lambda>_. Inr []) (Generation0 :: unit Organism Generation)
         \<lparr>written = [], room = None\<rparr>
       = Inr \<lparr>written = scalar_fields (Generation0 :: unit Organism Generation), room = None\<rparr>
   \<and> Generation_Decode (\<lambda>_ _. Inr ()) Generation0
         (scalar_fields (Generation0 :: unit Organism Generation))
       = Inl (Wrap EOF ''failed to decode Fitness'')"
proof -
  have h: "g_Champion (Generation0 :: unit Organism Generation) = None"
    by (simp add: Generation0_def)
  note t = nil_champion_encode_decode_asymmetry
      [OF h, of "\<lambda>_. 0" "\<lambda>_. Inr []" "\<lparr>written = [], room = None\<rparr>"
         "\<lambda>_ _. Inr ()" Generation0 "[]"]
  have e: "Generation_Encode (\<lambda>_. 0) (\<lambda>_. Inr []) (Generation0 :: unit Organism Generation)
         \<lparr>written = [], room = None\<rparr>
       = Inr \<lparr>written = scalar_fields (Generation0 :: unit Organism Generation), room = None\<rparr>"
    using t [THEN conjunct2, THEN conjunct1] by simp
  have d: "Generation_Decode (\<lambda>_ _. Inr ()) Generation0
         (scalar_fields (Generation0 :: unit Organism Generation))
       = Inl (Wrap EOF ''failed to decode Fitness'')"
    using t [THEN conjunct2, THEN conjunct2, THEN conjunct2] .
  from h e d show ?thesis by (intro conjI)
qed

subsection \<open>The names in decode errors\<close>

text \<open>
  C6. A stream that ends where \<open>WinnerGenes\<close> is expected is reported as a failure to
  decode \<open>WinnerNodes\<close>, and a stream that ends where the organism's
  \<open>ExpectedOffspring\<close> or \<open>Error\<close> is expected is reported as a failure to
  decode \<open>Generation\<close>: the error does not carry the failing field's own name.
\<close>

theorem decode_error_names_wrong_field:
  "Generation_Decode (\<lambda>_ _. Inr ()) Generation0
     [GInt 1, GTime 0, GBool False, GFloats [], GFloats [], GFloats [],
      GInt 0, GInt 0, GInt 0]
     = Inl (Wrap EOF ''failed to decode WinnerNodes'')
   \<and> decodeOrganism (\<lambda>_ _. Inr ()) [GFloat (Fin 1), GBool False, GInt 0]
     = Inl (Wrap EOF ''failed to decode Generation'')
   \<and> decodeOrganism (\<lambda>_ _. Inr ()) [GFloat (Fin 1), GBool False, GInt 0, GFloat (Fin 0)]
     = Inl (Wrap EOF ''failed to decode Generation'')"
  by (simp add: Generation_Decode_def decodeOrganism_def)

subsection \<open>Averages of an empty Generation\<close>

lemma Floats_Mean_Nil: "Floats_Mean [] = Fin 0"
  by (simp add: Floats_Mean_def)

text \<open>
  C4. A Generation with \<open>Diversity = 0\<close>, its three vectors having that length,
  has \<open>Average() = (0, 0, 0)\<close>, and no component is \<open>NaN\<close>.
\<close>

theorem Average_of_empty_generation:
  assumes "g_Diversity g = 0"
    and "int (length (g_Fitness g)) = g_Diversity g"
    and "int (length (g_Age g)) = g_Diversity g"
    and "int (length (g_Complexity g)) = g_Diversity g"
  shows "Average g = (Fin 0, Fin 0, Fin 0)
       \<and> fst (Average g) \<noteq> NaN \<and> fst (snd (Average g)) \<noteq> NaN \<and> snd (snd (Average g)) \<noteq> NaN"
  using assms by (simp add: Average_def Floats_Mean_Nil)

theorem Average_of_empty_generation_witness:
  "g_Diversity (Generation0 :: nat Generation) = 0
   \<and> Average (Generation0 :: nat Generation) = (Fin 0, Fin 0, Fin 0)"
proof -
  have "g_Diversity (Generation0 :: nat Generation) = 0"
    and "int (length (g_Fitness (Generation0 :: nat Generation))) = g_Diversity (Generation0 :: nat Generation)"
    and "int (length (g_Age (Generation0 :: nat Generation))) = g_Diversity (Generation0 :: nat Generation)"
    and "int (length (g_Complexity (Generation0 :: nat Generation))) = g_Diversity (Generation0 :: nat Generation)"
    by (simp_all add: Generation0_def)
  from this Average_of_empty_generation [OF this] show ?thesis by blast
qed

subsection \<open>The success rate\<close>

lemma foldl_count:
  "foldl (\<lambda>count t. if P t then count + 1 else count) (c::int) ts = c + int (length (filter P ts))"
  by (induction ts arbitrary: c) simp_all

lemma TrialsSolved_filter: "TrialsSolved solved e = int (length (filter solved (e_Trials e)))"
  by (simp add: TrialsSolved_def foldl_count)

lemma SuccessRate_nonempty:
  "e_Trials e \<noteq> [] \<Longrightarrow>
   SuccessRate solved e =
     Fin (real (length (filter solved (e_Trials e))) / real (length (e_Trials e)))"
  by (simp add: SuccessRate_def TrialsSolved_filter float64_of_int_def)

lemma SuccessRate_empty: "e_Trials e = [] \<Longrightarrow> SuccessRate solved e = Fin 0"
  by (simp add: SuccessRate_def)

lemma filter_all_iff: "length (filter P xs) = length xs \<longleftrightarrow> (\<forall>x\<in>set xs. P x)"
proof (induction xs)
  case Nil
  show ?case by simp
next
  case (Cons x xs)
  have "length (filter P xs) \<le> length xs" by simp
  then have "length (filter P xs) \<noteq> Suc (length xs)" by linarith
  with Cons show ?case by auto
qed

text \<open>
  C5. \<open>SuccessRate\<close> is a finite number in \<open>[0, 1]\<close>. It is 0 when the Experiment
  has no Trials; when it has Trials, it is 1 if and only if every Trial is solved.
\<close>

theorem SuccessRate_range:
  "\<exists>r. SuccessRate solved e = Fin r \<and> 0 \<le> r \<and> r \<le> 1
     \<and> (e_Trials e \<noteq> [] \<longrightarrow> (r = 1 \<longleftrightarrow> (\<forall>t\<in>set (e_Trials e). solved t)))
     \<and> (e_Trials e = [] \<longrightarrow> r = 0)"
proof (cases "e_Trials e = []")
  case True
  then show ?thesis by (simp add: SuccessRate_empty)
next
  case False
  let ?k = "length (filter solved (e_Trials e))"
  let ?n = "length (e_Trials e)"
  have n: "0 < ?n" using False by simp
  have kn: "?k \<le> ?n" by simp
  have r: "SuccessRate solved e = Fin (real ?k / real ?n)"
    using False by (rule SuccessRate_nonempty)
  have one: "real ?k / real ?n = 1 \<longleftrightarrow> (\<forall>t\<in>set (e_Trials e). solved t)"
  proof -
    have "real ?k / real ?n = 1 \<longleftrightarrow> ?k = ?n" using n by auto
    also have "\<dots> \<longleftrightarrow> (\<forall>t\<in>set (e_Trials e). solved t)" by (rule filter_all_iff)
    finally show ?thesis .
  qed
  have le: "real ?k / real ?n \<le> 1" using n kn by simp
  have ge: "0 \<le> real ?k / real ?n" by simp
  from r one le ge False show ?thesis by simp
qed

theorem SuccessRate_range_witness:
  "e_Trials all_solved_experiment \<noteq> []
   \<and> list_all sample_solved (e_Trials all_solved_experiment)
   \<and> SuccessRate sample_solved all_solved_experiment = Fin 1"
proof -
  have n: "e_Trials all_solved_experiment \<noteq> []"
    by (simp add: all_solved_experiment_def Experiment0_def)
  have a: "list_all sample_solved (e_Trials all_solved_experiment)"
    by (simp add: all_solved_experiment_def Experiment0_def solved_trial_def Trial0_def
          sample_solved_def sample_generation_def Generation0_def)
  from SuccessRate_range [of sample_solved all_solved_experiment] n a
  have "SuccessRate sample_solved all_solved_experiment = Fin 1"
    by (auto simp: list_all_iff)
  with n a show ?thesis by simp
qed

subsection \<open>The best organism of an experiment\<close>

lemma candidates_no_winner:
  assumes "\<forall>g\<in>set (t_Generations t). \<forall>a. g_Champion g = Some a \<longrightarrow> \<not> o_IsWinner (h a)"
  shows "candidates h True t = []"
  using assms by (auto simp: candidates_def split: option.splits)

lemma best_loop_none:
  assumes "\<forall>t\<in>set ts. Trial_BestOrganism h b t = None"
  shows "best_loop h b i ts orgs = (h, orgs)"
  using assms by (induction ts arbitrary: i) simp_all

text \<open>
  C8. When no champion of any Generation of any Trial is flagged as a winner,
  \<open>BestOrganism(true)\<close> returns the nil organism, the index \<open>-1\<close> and
  \<open>false\<close>, whatever the fitness of the organisms that are not winners, and leaves
  the organisms as they were.
\<close>

theorem BestOrganism_no_winner_not_found:
  assumes "\<forall>t\<in>set (e_Trials e). \<forall>g\<in>set (t_Generations t).
             \<forall>a. g_Champion g = Some a \<longrightarrow> \<not> o_IsWinner (h a)"
  shows "Experiment_BestOrganism sortReverse h True e = Inr (h, None, - 1, False)"
proof -
  have "\<forall>t\<in>set (e_Trials e). Trial_BestOrganism h True t = None"
    using assms by (simp add: Trial_BestOrganism_def candidates_no_winner)
  then have "best_loop h True 0 (e_Trials e) [] = (h, [])"
    by (rule best_loop_none)
  then show ?thesis by (simp add: Experiment_BestOrganism_def)
qed

theorem BestOrganism_no_winner_not_found_witness:
  "o_Fitness (sample_store 5) = Fin (1 / 2)
   \<and> Experiment_BestOrganism sample_sortReverse sample_store True none_solved_experiment
       = Inr (sample_store, None, - 1, False)"
proof -
  have h: "\<forall>t\<in>set (e_Trials none_solved_experiment). \<forall>g\<in>set (t_Generations t).
             \<forall>a. g_Champion g = Some a \<longrightarrow> \<not> o_IsWinner (sample_store a)"
    by (simp add: none_solved_experiment_def Experiment0_def unsolved_trial_def Trial0_def
          sample_generation_def Generation0_def sample_store_def)
  have "o_Fitness (sample_store 5) = Fin (1 / 2)"
    by (simp add: sample_store_def)
  with BestOrganism_no_winner_not_found [OF h, of sample_sortReverse] show ?thesis by simp
qed

subsection \<open>Statistics of a population\<close>

lemma store_at_length: "store_at xs i v = Inr ys \<Longrightarrow> length ys = length xs"
  by (auto simp: store_at_def split: if_splits)

lemma fill_body_lengths:
  assumes "fill_body S C h i s (maxF, g) = Inr (maxF', g', s')"
  shows "length (g_Fitness g') = length (g_Fitness g) \<and> length (g_Age g') = length (g_Age g)
     \<and> length (g_Complexity g') = length (g_Complexity g) \<and> g_Diversity g' = g_Diversity g"
proof (cases "S h (s_Organisms s)")
  case Nil
  with assms show ?thesis
    by (simp add: fill_body_def bindE_Inr_iff)
next
  case (Cons first others)
  with assms show ?thesis
    by (auto simp: fill_body_def bindE_Inr_iff Let_def split: if_splits dest!: store_at_length)
qed

lemma fill_loop_lengths:
  "fill_loop S C h i ss (maxF, g) = Inr (g', ss') \<Longrightarrow>
     length (g_Fitness g') = length (g_Fitness g) \<and> length (g_Age g') = length (g_Age g)
     \<and> length (g_Complexity g') = length (g_Complexity g) \<and> g_Diversity g' = g_Diversity g"
proof (induction ss arbitrary: i maxF g g' ss')
  case Nil
  then show ?case by simp
next
  case (Cons s ss)
  from Cons.prems obtain maxF1 g1 s1 ss1 where
    b: "fill_body S C h i s (maxF, g) = Inr (maxF1, g1, s1)"
    and l: "fill_loop S C h (Suc i) ss (maxF1, g1) = Inr (g', ss1)"
    by (auto simp: bindE_Inr_iff)
  from fill_body_lengths [OF b] Cons.IH [OF l] show ?case by simp
qed

lemma fill_body_returns:
  assumes "i < length (g_Age g)" "i < length (g_Complexity g)" "i < length (g_Fitness g)"
    and "S h (s_Organisms s) \<noteq> []"
  shows "\<exists>r. fill_body S C h i s (maxF, g) = Inr r"
proof (cases "S h (s_Organisms s)")
  case Nil
  with assms show ?thesis by simp
next
  case (Cons first others)
  with assms show ?thesis
    by (simp add: fill_body_def store_at_def Let_def)
qed

lemma fill_loop_returns:
  assumes "i + length ss \<le> length (g_Age g)" "i + length ss \<le> length (g_Complexity g)"
    "i + length ss \<le> length (g_Fitness g)"
    and "\<forall>s\<in>set ss. S h (s_Organisms s) \<noteq> []"
  shows "\<exists>r. fill_loop S C h i ss (maxF, g) = Inr r"
  using assms
proof (induction ss arbitrary: i maxF g)
  case Nil
  show ?case by simp
next
  case (Cons s ss)
  from Cons.prems have "\<exists>r. fill_body S C h i s (maxF, g) = Inr r"
    by (intro fill_body_returns) auto
  then obtain maxF1 g1 s1 where b: "fill_body S C h i s (maxF, g) = Inr (maxF1, g1, s1)"
    by (metis prod_cases3)
  note len = fill_body_lengths [OF b]
  from Cons.prems len have "\<exists>r. fill_loop S C h (Suc i) ss (maxF1, g1) = Inr r"
    by (intro Cons.IH) auto
  then obtain g2 ss2 where "fill_loop S C h (Suc i) ss (maxF1, g1) = Inr (g2, ss2)"
    by (metis surj_pair)
  with b show ?case by simp
qed

lemma FillPopulationStatistics_unfold:
  "FillPopulationStatistics sortReverse organismComplexity h g pop =
     fill_loop sortReverse organismComplexity h 0 pop
          (float64_of_int MinInt64,
           g\<lparr>g_Diversity := int (length pop),
              g_Age := replicate (length pop) (Fin 0),
              g_Complexity := replicate (length pop) (Fin 0),
              g_Fitness := replicate (length pop) (Fin 0)\<rparr>)"
  by (simp add: FillPopulationStatistics_def Let_def)

lemma FillPopulationStatistics_result_lengths:
  assumes "FillPopulationStatistics sortReverse organismComplexity h g pop = Inr (g', pop')"
  shows "int (length (g_Fitness g')) = g_Diversity g'
        \<and> int (length (g_Age g')) = g_Diversity g'
        \<and> int (length (g_Complexity g')) = g_Diversity g'
        \<and> g_Diversity g' = int (length pop)"
  using fill_loop_lengths [OF assms [unfolded FillPopulationStatistics_unfold]]
  by simp

lemma FillPopulationStatistics_returns:
  assumes a: "\<forall>s\<in>set pop. sortReverse h (s_Organisms s) \<noteq> []"
  shows "\<exists>g' pop'. FillPopulationStatistics sortReverse organismComplexity h g pop
             = Inr (g', pop')"
proof -
  have "\<exists>r. fill_loop sortReverse organismComplexity h 0 pop
          (float64_of_int MinInt64,
           g\<lparr>g_Diversity := int (length pop),
              g_Age := replicate (length pop) (Fin 0),
              g_Complexity := replicate (length pop) (Fin 0),
              g_Fitness := replicate (length pop) (Fin 0)\<rparr>) = Inr r"
    by (rule fill_loop_returns) (use a in simp_all)
  then obtain g' pop' where "fill_loop sortReverse organismComplexity h 0 pop
          (float64_of_int MinInt64,
           g\<lparr>g_Diversity := int (length pop),
              g_Age := replicate (length pop) (Fin 0),
              g_Complexity := replicate (length pop) (Fin 0),
              g_Fitness := replicate (length pop) (Fin 0)\<rparr>) = Inr (g', pop')"
    by (metis surj_pair)
  then show ?thesis
    unfolding FillPopulationStatistics_unfold by blast
qed

text \<open>
  C9. Whenever \<open>FillPopulationStatistics\<close> returns, the three vectors of the Generation
  have length \<open>Diversity\<close>, which is the number of species of the population; and it
  does return when every species has an organism to take first.
\<close>

theorem FillPopulationStatistics_lengths:
  "(\<forall>g' pop'. FillPopulationStatistics sortReverse organismComplexity h g pop = Inr (g', pop')
      \<longrightarrow> int (length (g_Fitness g')) = g_Diversity g'
        \<and> int (length (g_Age g')) = g_Diversity g'
        \<and> int (length (g_Complexity g')) = g_Diversity g'
        \<and> g_Diversity g' = int (length pop))
   \<and> ((\<forall>s\<in>set pop. sortReverse h (s_Organisms s) \<noteq> [])
      \<longrightarrow> (\<exists>g' pop'. FillPopulationStatistics sortReverse organismComplexity h g pop
             = Inr (g', pop')))"
  using FillPopulationStatistics_result_lengths [of sortReverse organismComplexity h g pop]
    FillPopulationStatistics_returns [of pop sortReverse h organismComplexity g]
  by blast


theorem FillPopulationStatistics_lengths_witness:
  "list_all (\<lambda>s. sample_sortReverse sample_store (s_Organisms s) \<noteq> []) sample_population
   \<and> (\<exists>g' pop'. FillPopulationStatistics sample_sortReverse sample_complexity sample_store
                   Generation0 sample_population = Inr (g', pop')
          \<and> length (g_Fitness g') = 2 \<and> length (g_Age g') = 2
          \<and> length (g_Complexity g') = 2 \<and> g_Diversity g' = 2)"
proof -
  have h: "\<forall>s\<in>set sample_population. sample_sortReverse sample_store (s_Organisms s) \<noteq> []"
    by (simp add: sample_population_def sample_sortReverse_def)
  note t = FillPopulationStatistics_lengths
    [of sample_sortReverse sample_complexity sample_store Generation0 sample_population]
  from t h obtain g' pop' where
    r: "FillPopulationStatistics sample_sortReverse sample_complexity sample_store
          Generation0 sample_population = Inr (g', pop')"
    by blast
  with t have "int (length (g_Fitness g')) = g_Diversity g'
        \<and> int (length (g_Age g')) = g_Diversity g'
        \<and> int (length (g_Complexity g')) = g_Diversity g'
        \<and> g_Diversity g' = int (length sample_population)"
    by blast
  then have "length (g_Fitness g') = 2 \<and> length (g_Age g') = 2
          \<and> length (g_Complexity g') = 2 \<and> g_Diversity g' = 2"
    by (simp add: sample_population_def)
  with h r show ?thesis by (auto simp: list_all_iff)
qed

subsection \<open>The champion of a Generation and the population\<close>

lemma fgt_irrefl: "\<not> fgt a a"
  by (cases a) simp_all

lemma fgt_trans: "fgt a b \<Longrightarrow> fgt b c \<Longrightarrow> fgt a c"
  by (cases a; cases b; cases c) simp_all

lemma fgt_asym: "fgt a b \<Longrightarrow> \<not> fgt b a"
  by (cases a; cases b) simp_all

lemma fgt_not_above: "fgt n m \<Longrightarrow> \<not> fgt x m \<Longrightarrow> \<not> fgt x n"
  by (cases n; cases m; cases x) simp_all

lemma fgt_below: "fgt n m \<Longrightarrow> \<not> fgt x m \<Longrightarrow> fgt x lo \<Longrightarrow> fgt n x"
  by (cases n; cases m; cases x; cases lo) simp_all

lemma unbeaten_Nil: "unbeaten h [] m"
  by (simp add: unbeaten_def)

lemma unbeaten_Cons:
  "representative s = Some b \<Longrightarrow>
     unbeaten h (s # ss) m \<longleftrightarrow> \<not> fgt (o_Fitness (h b)) m \<and> unbeaten h ss m"
  by (simp add: unbeaten_def)

lemma unbeaten_append:
  "unbeaten h (xs @ ys) m \<longleftrightarrow> unbeaten h xs m \<and> unbeaten h ys m"
  by (simp add: unbeaten_def)

lemma all_below_Nil: "all_below h [] m"
  by (simp add: all_below_def)

lemma all_below_Cons:
  "representative s = Some b \<Longrightarrow>
     all_below h (s # ss) m \<longleftrightarrow> fgt m (o_Fitness (h b)) \<and> all_below h ss m"
  by (simp add: all_below_def)

lemma fill_body_result:
  assumes "fill_body S C h i s (maxF, g) = Inr (maxF', g', s')"
  shows "\<exists>first others.
           S h (s_Organisms s) = first # others
         \<and> s' = sorted_species S h s
         \<and> representative s' = Some first
         \<and> g_Solved g' = g_Solved g
         \<and> (if \<not> g_Solved g \<and> fgt (o_Fitness (h first)) maxF
            then maxF' = o_Fitness (h first) \<and> g_Champion g' = Some first
            else maxF' = maxF \<and> g_Champion g' = g_Champion g)"
proof (cases "S h (s_Organisms s)")
  case Nil
  with assms show ?thesis
    by (simp add: fill_body_def bindE_Inr_iff)
next
  case (Cons first others)
  with assms show ?thesis
    by (auto simp: fill_body_def bindE_Inr_iff Let_def sorted_species_def representative_def
             fgt_irrefl split: if_splits)
qed

lemma fill_loop_best:
  assumes "fill_loop S C h i ss (maxF, g) = Inr (g', ss')"
    and "\<not> g_Solved g"
    and "\<forall>s\<in>set ss. \<forall>a\<in>set (S h (s_Organisms s)). fgt (o_Fitness (h a)) lo"
  shows "ss' = map (sorted_species S h) ss
       \<and> ((g_Champion g' = g_Champion g \<and> unbeaten h ss' maxF)
          \<or> (\<exists>pre s post a. ss' = pre @ s # post \<and> representative s = Some a
                \<and> g_Champion g' = Some a \<and> fgt (o_Fitness (h a)) maxF
                \<and> unbeaten h ss' (o_Fitness (h a))
                \<and> all_below h pre (o_Fitness (h a))))"
  using assms
proof (induction ss arbitrary: i maxF g g' ss')
  case Nil
  then show ?case by (simp add: unbeaten_Nil)
next
  case (Cons s rest)
  from Cons.prems(1) obtain maxF1 g1 s1 ss1 where
    b: "fill_body S C h i s (maxF, g) = Inr (maxF1, g1, s1)"
    and l: "fill_loop S C h (Suc i) rest (maxF1, g1) = Inr (g', ss1)"
    and ss': "ss' = s1 # ss1"
    by (auto simp: bindE_Inr_iff)
  from fill_body_result [OF b] obtain first others where
    sorted: "S h (s_Organisms s) = first # others"
    and s1: "s1 = sorted_species S h s"
    and rep: "representative s1 = Some first"
    and solved1: "g_Solved g1 = g_Solved g"
    and upd: "if \<not> g_Solved g \<and> fgt (o_Fitness (h first)) maxF
              then maxF1 = o_Fitness (h first) \<and> g_Champion g1 = Some first
              else maxF1 = maxF \<and> g_Champion g1 = g_Champion g"
    by blast
  from Cons.prems(3) sorted have first_lo: "fgt (o_Fitness (h first)) lo" by simp
  from Cons.prems(3) have rest_lo:
    "\<forall>s\<in>set rest. \<forall>a\<in>set (S h (s_Organisms s)). fgt (o_Fitness (h a)) lo" by simp
  from Cons.prems(2) solved1 have ns1: "\<not> g_Solved g1" by simp
  note IH = Cons.IH [OF l ns1 rest_lo]
  from IH have map1: "ss1 = map (sorted_species S h) rest" by blast
  with ss' s1 have map': "ss' = map (sorted_species S h) (s # rest)" by simp
  from IH consider
    (same) "g_Champion g' = g_Champion g1" "unbeaten h ss1 maxF1"
  | (later) pre sk post a where "ss1 = pre @ sk # post" "representative sk = Some a"
      "g_Champion g' = Some a" "fgt (o_Fitness (h a)) maxF1"
      "unbeaten h ss1 (o_Fitness (h a))" "all_below h pre (o_Fitness (h a))"
    by blast
  then have "(g_Champion g' = g_Champion g \<and> unbeaten h ss' maxF)
          \<or> (\<exists>pre s post a. ss' = pre @ s # post \<and> representative s = Some a
                \<and> g_Champion g' = Some a \<and> fgt (o_Fitness (h a)) maxF
                \<and> unbeaten h ss' (o_Fitness (h a))
                \<and> all_below h pre (o_Fitness (h a)))"
  proof cases
    case same
    show ?thesis
    proof (cases "fgt (o_Fitness (h first)) maxF")
      case True
      with upd Cons.prems(2) have m: "maxF1 = o_Fitness (h first)" "g_Champion g1 = Some first"
        by simp_all
      have "ss' = [] @ s1 # ss1" using ss' by simp
      moreover have "g_Champion g' = Some first" using same(1) m(2) by simp
      moreover have "unbeaten h ss' (o_Fitness (h first))"
        using same(2) m(1) ss' by (simp add: unbeaten_Cons [OF rep] fgt_irrefl)
      moreover have "all_below h [] (o_Fitness (h first))" by (rule all_below_Nil)
      ultimately show ?thesis using rep True by blast
    next
      case False
      with upd have m: "maxF1 = maxF" "g_Champion g1 = g_Champion g" by simp_all
      have "unbeaten h ss' maxF"
        using same(2) m(1) ss' False by (simp add: unbeaten_Cons [OF rep])
      with same(1) m(2) show ?thesis by simp
    qed
  next
    case later
    have dec: "ss' = (s1 # pre) @ sk # post" using ss' later(1) by simp
    show ?thesis
    proof (cases "fgt (o_Fitness (h first)) maxF")
      case True
      with upd Cons.prems(2) have m: "maxF1 = o_Fitness (h first)" by simp
      from later(4) m have af: "fgt (o_Fitness (h a)) (o_Fitness (h first))" by simp
      from af True have "fgt (o_Fitness (h a)) maxF" by (rule fgt_trans)
      moreover have "unbeaten h ss' (o_Fitness (h a))"
        using later(5) ss' fgt_asym [OF af] by (simp add: unbeaten_Cons [OF rep])
      moreover have "all_below h (s1 # pre) (o_Fitness (h a))"
        using later(6) af by (simp add: all_below_Cons [OF rep])
      ultimately show ?thesis using dec later(2,3) by blast
    next
      case False
      with upd have m: "maxF1 = maxF" by simp
      from later(4) m have am: "fgt (o_Fitness (h a)) maxF" by simp
      moreover have "unbeaten h ss' (o_Fitness (h a))"
        using later(5) ss' fgt_not_above [OF am False] by (simp add: unbeaten_Cons [OF rep])
      moreover have "all_below h (s1 # pre) (o_Fitness (h a))"
        using later(6) fgt_below [OF am False first_lo] by (simp add: all_below_Cons [OF rep])
      ultimately show ?thesis using dec later(2,3) by blast
    qed
  qed
  with map' show ?case by blast
qed

lemma unbeaten_iff:
  "unbeaten h ss m \<longleftrightarrow>
     (\<forall>s'\<in>set ss. \<forall>b. representative s' = Some b \<longrightarrow> \<not> fgt (o_Fitness (h b)) m)"
  by (auto simp: unbeaten_def list_all_iff split: option.splits)

lemma all_below_iff:
  "all_below h ss m \<longleftrightarrow>
     (\<forall>s'\<in>set ss. \<forall>b. representative s' = Some b \<longrightarrow> fgt m (o_Fitness (h b)))"
  by (auto simp: all_below_def list_all_iff split: option.splits)

lemma representative_member: "representative s = Some a \<Longrightarrow> a \<in> set (s_Organisms s)"
  by (auto simp: representative_def split: list.splits)

text \<open>
  C7, amended. After \<open>FillPopulationStatistics\<close> on a Generation that is not solved
  yet, over a population with at least one species whose organisms all have a fitness
  above the initial maximum, the Generation's \<open>Champion\<close> is not a copy: it is the very
  pointer that a species of the population holds as its first organism after the sort.
  That organism's fitness is exceeded by no species' first organism and is strictly above
  that of the first organism of every earlier species, so the champion is the first of
  the best representatives. Whatever is later written to that organism is what the
  Generation's champion reads.
\<close>

theorem Champion_is_best_representative:
  assumes fill: "FillPopulationStatistics sortReverse organismComplexity h g pop = Inr (g', pop')"
    and unsolved: "\<not> g_Solved g"
    and nonempty: "pop \<noteq> []"
    and sub: "\<forall>s\<in>set pop. set (sortReverse h (s_Organisms s)) \<subseteq> set (s_Organisms s)"
    and above: "\<forall>a\<in>population_organisms pop. fgt (o_Fitness (h a)) (float64_of_int MinInt64)"
  shows "pop' = map (sorted_species sortReverse h) pop
       \<and> (\<exists>pre s post a.
             pop' = pre @ s # post \<and> representative s = Some a \<and> g_Champion g' = Some a
           \<and> a \<in> population_organisms pop
           \<and> (\<forall>s'\<in>set pop'. \<forall>b. representative s' = Some b
                  \<longrightarrow> \<not> fgt (o_Fitness (h b)) (o_Fitness (h a)))
           \<and> (\<forall>s'\<in>set pre. \<forall>b. representative s' = Some b
                  \<longrightarrow> fgt (o_Fitness (h a)) (o_Fitness (h b)))
           \<and> (\<forall>org. ChampionOrganism (h(a := org)) g' = Some org))"
proof -
  let ?lo = "float64_of_int MinInt64"
  let ?g0 = "g\<lparr>g_Diversity := int (length pop),
              g_Age := replicate (length pop) (Fin 0),
              g_Complexity := replicate (length pop) (Fin 0),
              g_Fitness := replicate (length pop) (Fin 0)\<rparr>"
  have loop: "fill_loop sortReverse organismComplexity h 0 pop (?lo, ?g0) = Inr (g', pop')"
    using fill unfolding FillPopulationStatistics_unfold .
  have ns: "\<not> g_Solved ?g0" using unsolved by simp
  have lo: "\<forall>s\<in>set pop. \<forall>a\<in>set (sortReverse h (s_Organisms s)). fgt (o_Fitness (h a)) ?lo"
    using sub above by (auto simp: population_organisms_def)
  note best = fill_loop_best [OF loop ns lo]
  from best have map': "pop' = map (sorted_species sortReverse h) pop" by blast
  have member: "a \<in> population_organisms pop"
    if "s \<in> set pop'" "representative s = Some a" for s a
  proof -
    from that(1) map' obtain s0 where s0: "s0 \<in> set pop" "s = sorted_species sortReverse h s0"
      by auto
    from representative_member [OF that(2)] s0(2)
    have "a \<in> set (sortReverse h (s_Organisms s0))" by (simp add: sorted_species_def)
    with sub s0(1) show ?thesis by (auto simp: population_organisms_def)
  qed
  have "\<not> unbeaten h pop' ?lo"
  proof
    assume u: "unbeaten h pop' ?lo"
    from nonempty obtain s ss where pop: "pop = s # ss" by (cases pop) auto
    from loop [unfolded pop] obtain maxF1 g1 s1 ss1 where
      b: "fill_body sortReverse organismComplexity h 0 s (?lo, ?g0) = Inr (maxF1, g1, s1)"
      and p: "pop' = s1 # ss1"
      by (auto simp: bindE_Inr_iff pop)
    from fill_body_result [OF b] obtain first where rep: "representative s1 = Some first"
      by blast
    from p have "s1 \<in> set pop'" by simp
    from member [OF this rep] above have "fgt (o_Fitness (h first)) ?lo" by blast
    with u p rep show False by (simp add: unbeaten_Cons [OF rep])
  qed
  with best obtain pre s post a where
    r: "pop' = pre @ s # post" "representative s = Some a" "g_Champion g' = Some a"
       "unbeaten h pop' (o_Fitness (h a))" "all_below h pre (o_Fitness (h a))"
    by blast
  from r(1) have "s \<in> set pop'" by simp
  from member [OF this r(2)] have m: "a \<in> population_organisms pop" .
  have seen: "\<forall>org. ChampionOrganism (h(a := org)) g' = Some org"
    using r(3) by (simp add: ChampionOrganism_def)
  from r(4) have u: "\<forall>s'\<in>set pop'. \<forall>b. representative s' = Some b
                  \<longrightarrow> \<not> fgt (o_Fitness (h b)) (o_Fitness (h a))"
    by (simp add: unbeaten_iff)
  from r(5) have bl: "\<forall>s'\<in>set pre. \<forall>b. representative s' = Some b
                  \<longrightarrow> fgt (o_Fitness (h a)) (o_Fitness (h b))"
    by (simp add: all_below_iff)
  from map' r(1,2,3) m u bl seen show ?thesis by blast
qed

lemma sample_Fill:
  "FillPopulationStatistics sample_sortReverse sample_complexity sample_store
     Generation0 sample_population = Inr (filled_generation, sorted_population)"
  by (simp add: FillPopulationStatistics_unfold sample_population_def fill_body_def
        store_at_def sample_sortReverse_def sample_store_def sample_complexity_def
        Generation0_def Organism0_def float64_of_int_def MinInt64_def
        filled_generation_def sorted_population_def)

theorem Champion_is_best_representative_witness:
  "FillPopulationStatistics sample_sortReverse sample_complexity sample_store
     Generation0 sample_population = Inr (filled_generation, sorted_population)
   \<and> sorted_population = map (sorted_species sample_sortReverse sample_store) sample_population
   \<and> g_Champion filled_generation = Some 5
   \<and> representative (hd sorted_population) = Some 5
   \<and> ChampionOrganism (sample_store(5 := Organism0)) filled_generation = Some Organism0"
proof -
  have 2: "\<not> g_Solved (Generation0 :: nat Generation)" by (simp add: Generation0_def)
  have 3: "sample_population \<noteq> []" by (simp add: sample_population_def)
  have 4: "\<forall>s\<in>set sample_population.
      set (sample_sortReverse sample_store (s_Organisms s)) \<subseteq> set (s_Organisms s)"
    by (simp add: sample_population_def sample_sortReverse_def sample_store_def Organism0_def)
  have 5: "\<forall>a\<in>population_organisms sample_population.
      fgt (o_Fitness (sample_store a)) (float64_of_int MinInt64)"
    by (simp add: population_organisms_def sample_population_def sample_store_def
          float64_of_int_def MinInt64_def)
  have c: "g_Champion filled_generation = Some 5"
    by (simp add: filled_generation_def Generation0_def)
  have h: "representative (hd sorted_population) = Some 5"
    by (simp add: sorted_population_def representative_def)
  note t = Champion_is_best_representative [OF sample_Fill 2 3 4 5]
  from t have m: "sorted_population
      = map (sorted_species sample_sortReverse sample_store) sample_population"
    by blast
  from t obtain a where "g_Champion filled_generation = Some a"
    and "\<forall>org. ChampionOrganism (sample_store(a := org)) filled_generation = Some org"
    by blast
  with c have "ChampionOrganism (sample_store(5 := Organism0)) filled_generation = Some Organism0"
    by simp
  with sample_Fill m c h show ?thesis by simp
qed

text \<open>
  C7 as stated fails on the sample population: its champion is the organism at address
  5, and setting that organism's fitness to 0 in the population changes the champion
  recorded in the Generation.
\<close>

theorem Champion_copy_counterexample:
  "FillPopulationStatistics sample_sortReverse sample_complexity sample_store
     Generation0 sample_population = Inr (filled_generation, sorted_population)
   \<and> ChampionOrganism (sample_store(5 := (sample_store 5)\<lparr>o_Fitness := Fin 0\<rparr>)) filled_generation
       \<noteq> ChampionOrganism sample_store filled_generation"
  using sample_Fill
  by (simp add: ChampionOrganism_def filled_generation_def Generation0_def sample_store_def
        Organism0_def)

subsection \<open>What the query for the best organism writes\<close>

lemma same_but_Flag_refl: "same_but_Flag h h"
  by (simp add: same_but_Flag_def)

lemma same_but_Flag_trans: "same_but_Flag h1 h2 \<Longrightarrow> same_but_Flag h2 h3 \<Longrightarrow> same_but_Flag h1 h3"
  by (simp add: same_but_Flag_def)

lemma same_but_Flag_write: "same_but_Flag h (h(a := (h a)\<lparr>o_Flag := x\<rparr>))"
  by (simp add: same_but_Flag_def)

lemma same_but_Flag_Fitness:
  assumes "same_but_Flag h h'"
  shows "o_Fitness (h' a) = o_Fitness (h a)"
proof -
  from assms have "(h' a)\<lparr>o_Flag := 0\<rparr> = (h a)\<lparr>o_Flag := 0\<rparr>"
    by (simp add: same_but_Flag_def)
  then have "o_Fitness ((h' a)\<lparr>o_Flag := 0\<rparr>) = o_Fitness ((h a)\<lparr>o_Flag := 0\<rparr>)"
    by (rule arg_cong)
  then show ?thesis by simp
qed

lemma same_but_Flag_IsWinner:
  assumes "same_but_Flag h h'"
  shows "o_IsWinner (h' a) = o_IsWinner (h a)"
proof -
  from assms have "(h' a)\<lparr>o_Flag := 0\<rparr> = (h a)\<lparr>o_Flag := 0\<rparr>"
    by (simp add: same_but_Flag_def)
  then have "o_IsWinner ((h' a)\<lparr>o_Flag := 0\<rparr>) = o_IsWinner ((h a)\<lparr>o_Flag := 0\<rparr>)"
    by (rule arg_cong)
  then show ?thesis by simp
qed

lemma same_but_Flag_set_Flag:
  assumes "same_but_Flag h h'"
  shows "(h' a)\<lparr>o_Flag := x\<rparr> = (h a)\<lparr>o_Flag := x\<rparr>"
proof -
  from assms have "(h' a)\<lparr>o_Flag := 0\<rparr> = (h a)\<lparr>o_Flag := 0\<rparr>"
    by (simp add: same_but_Flag_def)
  then have "((h' a)\<lparr>o_Flag := 0\<rparr>)\<lparr>o_Flag := x\<rparr> = ((h a)\<lparr>o_Flag := 0\<rparr>)\<lparr>o_Flag := x\<rparr>"
    by (rule arg_cong)
  then show ?thesis by simp
qed

lemma max_fitness_scan_cong:
  assumes "\<And>a. o_Fitness (h' a) = o_Fitness (h a)"
  shows "max_fitness_scan h' best xs = max_fitness_scan h best xs"
proof (induction xs arbitrary: best)
  case Nil
  show ?case by simp
next
  case (Cons x xs)
  show ?case by (cases best) (simp_all add: assms Cons.IH)
qed

lemma candidates_cong:
  assumes "\<And>a. o_IsWinner (h' a) = o_IsWinner (h a)"
  shows "candidates h' b t = candidates h b t"
  by (simp add: candidates_def assms cong: option.case_cong if_cong)

lemma Trial_BestOrganism_cong:
  assumes "same_but_Flag h h'"
  shows "Trial_BestOrganism h' b t = Trial_BestOrganism h b t"
  unfolding Trial_BestOrganism_def
  using max_fitness_scan_cong [of h' h, OF same_but_Flag_Fitness [OF assms]]
    candidates_cong [of h' h, OF same_but_Flag_IsWinner [OF assms]]
  by simp

lemma best_loop_same_but_Flag:
  "best_loop h b i ts orgs = (h', orgs') \<Longrightarrow> same_but_Flag h h'"
proof (induction ts arbitrary: h i orgs)
  case Nil
  then show ?case by (simp add: same_but_Flag_refl)
next
  case (Cons t ts)
  show ?case
  proof (cases "Trial_BestOrganism h b t")
    case None
    with Cons.prems have "best_loop h b (Suc i) ts orgs = (h', orgs')" by simp
    then show ?thesis by (rule Cons.IH)
  next
    case (Some a)
    with Cons.prems have
      "best_loop (h(a := (h a)\<lparr>o_Flag := int i\<rparr>)) b (Suc i) ts (orgs @ [a]) = (h', orgs')"
      by simp
    then have "same_but_Flag (h(a := (h a)\<lparr>o_Flag := int i\<rparr>)) h'" by (rule Cons.IH)
    with same_but_Flag_write show ?thesis by (rule same_but_Flag_trans)
  qed
qed

lemma best_loop_untouched:
  assumes "best_loop h b i ts orgs = (h', orgs')"
    and "\<forall>t\<in>set ts. Trial_BestOrganism h b t \<noteq> Some a"
  shows "h' a = h a"
  using assms
proof (induction ts arbitrary: h i orgs)
  case Nil
  then show ?case by simp
next
  case (Cons t ts)
  show ?case
  proof (cases "Trial_BestOrganism h b t")
    case None
    with Cons.prems(1) have "best_loop h b (Suc i) ts orgs = (h', orgs')" by simp
    with Cons.prems(2) show ?thesis by (intro Cons.IH) auto
  next
    case (Some a1)
    let ?h1 = "h(a1 := (h a1)\<lparr>o_Flag := int i\<rparr>)"
    from Some Cons.prems(2) have ne: "a1 \<noteq> a" by auto
    from Some Cons.prems(1) have l: "best_loop ?h1 b (Suc i) ts (orgs @ [a1]) = (h', orgs')"
      by simp
    have "\<forall>t\<in>set ts. Trial_BestOrganism ?h1 b t \<noteq> Some a"
      using Cons.prems(2) by (simp add: Trial_BestOrganism_cong [OF same_but_Flag_write])
    with l have "h' a = ?h1 a" by (rule Cons.IH)
    with ne show ?thesis by simp
  qed
qed

lemma best_loop_Flag:
  assumes "best_loop h b i (pre @ t # post) orgs = (h', orgs')"
    and "Trial_BestOrganism h b t = Some a"
    and "\<forall>t'\<in>set post. Trial_BestOrganism h b t' \<noteq> Some a"
  shows "h' a = (h a)\<lparr>o_Flag := int (i + length pre)\<rparr>"
  using assms
proof (induction pre arbitrary: h i orgs)
  case Nil
  let ?h1 = "h(a := (h a)\<lparr>o_Flag := int i\<rparr>)"
  from Nil have l: "best_loop ?h1 b (Suc i) post (orgs @ [a]) = (h', orgs')" by simp
  have "\<forall>t'\<in>set post. Trial_BestOrganism ?h1 b t' \<noteq> Some a"
    using Nil.prems(3) by (simp add: Trial_BestOrganism_cong [OF same_but_Flag_write])
  with l have "h' a = ?h1 a" by (rule best_loop_untouched)
  then show ?case by simp
next
  case (Cons p pre)
  show ?case
  proof (cases "Trial_BestOrganism h b p")
    case None
    with Cons.prems(1) have "best_loop h b (Suc i) (pre @ t # post) orgs = (h', orgs')" by simp
    from Cons.IH [OF this Cons.prems(2,3)] show ?thesis by simp
  next
    case (Some a1)
    let ?h1 = "h(a1 := (h a1)\<lparr>o_Flag := int i\<rparr>)"
    have sb: "same_but_Flag h ?h1" by (rule same_but_Flag_write)
    from Some Cons.prems(1)
    have l: "best_loop ?h1 b (Suc i) (pre @ t # post) (orgs @ [a1]) = (h', orgs')" by simp
    have 2: "Trial_BestOrganism ?h1 b t = Some a"
      using Cons.prems(2) by (simp add: Trial_BestOrganism_cong [OF sb])
    have 3: "\<forall>t'\<in>set post. Trial_BestOrganism ?h1 b t' \<noteq> Some a"
      using Cons.prems(3) by (simp add: Trial_BestOrganism_cong [OF sb])
    from Cons.IH [OF l 2 3] have "h' a = (?h1 a)\<lparr>o_Flag := int (Suc i + length pre)\<rparr>" .
    also have "\<dots> = (h a)\<lparr>o_Flag := int (Suc i + length pre)\<rparr>"
      by (rule same_but_Flag_set_Flag [OF sb])
    finally show ?thesis by simp
  qed
qed

lemma best_loop_length:
  "best_loop h b i ts orgs = (h', orgs') \<Longrightarrow> length orgs \<le> length orgs'"
proof (induction ts arbitrary: h i orgs)
  case Nil
  then show ?case by simp
next
  case (Cons t ts)
  show ?case
  proof (cases "Trial_BestOrganism h b t")
    case None
    with Cons.prems have "best_loop h b (Suc i) ts orgs = (h', orgs')" by simp
    then show ?thesis by (rule Cons.IH)
  next
    case (Some a)
    with Cons.prems have
      "best_loop (h(a := (h a)\<lparr>o_Flag := int i\<rparr>)) b (Suc i) ts (orgs @ [a]) = (h', orgs')"
      by simp
    from Cons.IH [OF this] show ?thesis by simp
  qed
qed

lemma best_loop_found:
  assumes "best_loop h b i (pre @ t # post) orgs = (h', orgs')"
    and "Trial_BestOrganism h b t = Some a"
  shows "length orgs < length orgs'"
  using assms
proof (induction pre arbitrary: h i orgs)
  case Nil
  then have "best_loop (h(a := (h a)\<lparr>o_Flag := int i\<rparr>)) b (Suc i) post (orgs @ [a]) = (h', orgs')"
    by simp
  from best_loop_length [OF this] show ?case by simp
next
  case (Cons p pre)
  show ?case
  proof (cases "Trial_BestOrganism h b p")
    case None
    with Cons.prems(1) have "best_loop h b (Suc i) (pre @ t # post) orgs = (h', orgs')" by simp
    from Cons.IH [OF this Cons.prems(2)] show ?thesis .
  next
    case (Some a1)
    let ?h1 = "h(a1 := (h a1)\<lparr>o_Flag := int i\<rparr>)"
    from Some Cons.prems(1)
    have l: "best_loop ?h1 b (Suc i) (pre @ t # post) (orgs @ [a1]) = (h', orgs')" by simp
    have 2: "Trial_BestOrganism ?h1 b t = Some a"
      using Cons.prems(2) by (simp add: Trial_BestOrganism_cong [OF same_but_Flag_write])
    from Cons.IH [OF l 2] show ?thesis by simp
  qed
qed

text \<open>
  C10. \<open>Experiment.BestOrganism\<close> writes to the stored organisms. With \<open>h'\<close> the
  store its loop leaves, and a sort that keeps the length of the slice, the call returns
  an organism, and for a Trial at index \<open>i\<close> whose best organism \<open>a\<close> is found (and
  is not the best organism of a later Trial, which would write again), the organism at
  \<open>a\<close> afterwards is the one before with \<open>Flag\<close> set to \<open>i\<close>. Nothing but
  \<open>Flag\<close> fields changes.
\<close>

theorem BestOrganism_writes_Flag:
  assumes sort: "\<forall>xs. length (sortReverse h' xs) = length xs"
    and loop: "best_loop h onlySolvers 0 (e_Trials e) [] = (h', orgs)"
    and i: "i < length (e_Trials e)"
    and best: "Trial_BestOrganism h onlySolvers (e_Trials e ! i) = Some a"
    and later: "\<forall>j. i < j \<longrightarrow> j < length (e_Trials e)
                  \<longrightarrow> Trial_BestOrganism h onlySolvers (e_Trials e ! j) \<noteq> Some a"
  shows "\<exists>org. Experiment_BestOrganism sortReverse h onlySolvers e
                 = Inr (h', Some org, o_Flag (h' org), True)
       \<and> h' a = (h a)\<lparr>o_Flag := int i\<rparr>
       \<and> same_but_Flag h h'"
proof -
  let ?ts = "e_Trials e"
  have dec: "?ts = take i ?ts @ ?ts ! i # drop (Suc i) ?ts"
    using i by (rule id_take_nth_drop)
  have post: "\<forall>t'\<in>set (drop (Suc i) ?ts). Trial_BestOrganism h onlySolvers t' \<noteq> Some a"
  proof
    fix t' assume "t' \<in> set (drop (Suc i) ?ts)"
    then obtain k where k: "k < length (drop (Suc i) ?ts)" "t' = drop (Suc i) ?ts ! k"
      by (auto simp: in_set_conv_nth)
    then have "t' = ?ts ! (Suc i + k)" "Suc i + k < length ?ts" by auto
    with later show "Trial_BestOrganism h onlySolvers t' \<noteq> Some a" by auto
  qed
  from loop dec have loop': "best_loop h onlySolvers 0 (take i ?ts @ ?ts ! i # drop (Suc i) ?ts) []
      = (h', orgs)" by simp
  from best_loop_Flag [OF loop' best post] i
  have flag: "h' a = (h a)\<lparr>o_Flag := int i\<rparr>" by simp
  from best_loop_found [OF loop' best] have ne: "0 < length orgs" by simp
  with sort have "sortReverse h' orgs \<noteq> []" by (metis length_0_conv less_irrefl)
  then obtain first others where "sortReverse h' orgs = first # others"
    by (cases "sortReverse h' orgs") auto
  with loop ne have "Experiment_BestOrganism sortReverse h onlySolvers e
      = Inr (h', Some first, o_Flag (h' first), True)"
    by (simp add: Experiment_BestOrganism_def)
  with flag best_loop_same_but_Flag [OF loop] show ?thesis by blast
qed

lemma length_insert_desc: "length (insert_desc h a xs) = Suc (length xs)"
  by (induction xs) simp_all

lemma length_sample_sortReverse: "length (sample_sortReverse h xs) = length xs"
  by (induction xs) (simp_all add: sample_sortReverse_def length_insert_desc)

lemma scenario_best_loop:
  "best_loop sample_store False 0 (e_Trials scenario_experiment) [] = (flagged_store, [9, 5])"
  by (simp add: scenario_experiment_def Experiment0_def solved_trial_def unsolved_trial_def
        Trial0_def sample_generation_def Generation0_def Trial_BestOrganism_def
        candidates_def sample_store_def Organism0_def flagged_store_def)

theorem BestOrganism_writes_Flag_witness:
  "Trial_BestOrganism sample_store False (e_Trials scenario_experiment ! 1) = Some 5
   \<and> o_Flag (sample_store 5) = 0
   \<and> (\<exists>org. Experiment_BestOrganism sample_sortReverse sample_store False scenario_experiment
               = Inr (flagged_store, Some org, o_Flag (flagged_store org), True))
   \<and> o_Flag (flagged_store 5) = 1"
proof -
  have sort: "\<forall>xs. length (sample_sortReverse flagged_store xs) = length xs"
    by (simp add: length_sample_sortReverse)
  have i: "1 < length (e_Trials scenario_experiment)"
    by (simp add: scenario_experiment_def Experiment0_def)
  have best: "Trial_BestOrganism sample_store False (e_Trials scenario_experiment ! 1) = Some 5"
    by (simp add: scenario_experiment_def Experiment0_def unsolved_trial_def
          Trial0_def sample_generation_def Generation0_def Trial_BestOrganism_def
          candidates_def sample_store_def Organism0_def)
  have later: "\<forall>j. 1 < j \<longrightarrow> j < length (e_Trials scenario_experiment)
        \<longrightarrow> Trial_BestOrganism sample_store False (e_Trials scenario_experiment ! j) \<noteq> Some 5"
    by (simp add: scenario_experiment_def Experiment0_def)
  have before: "o_Flag (sample_store 5) = 0"
    by (simp add: sample_store_def Organism0_def)
  from BestOrganism_writes_Flag
    [where sortReverse = sample_sortReverse and h' = flagged_store,
      OF sort scenario_best_loop i best later] before best
  show ?thesis by auto
qed

subsection \<open>The efficiency score\<close>

lemma foldl_fadd_Fin:
  "\<exists>r. foldl (\<lambda>total t. fadd total (float64_of_int (f t))) (Fin c) ts = Fin r"
  by (induction ts arbitrary: c) (simp_all add: float64_of_int_def)

lemma AvgGenerationsPerTrial_finite: "\<exists>r. AvgGenerationsPerTrial e = Fin r"
proof (cases "e_Trials e = []")
  case True
  then show ?thesis by (simp add: AvgGenerationsPerTrial_def)
next
  case False
  obtain r where "foldl (\<lambda>total t. fadd total (float64_of_int (int (length (t_Generations t)))))
      (Fin 0) (e_Trials e) = Fin r"
    using foldl_fadd_Fin [of "\<lambda>t. int (length (t_Generations t))" 0 "e_Trials e"] by blast
  with False show ?thesis
    by (simp add: AvgGenerationsPerTrial_def float64_of_int_def)
qed

lemma penaltyScore_zero: "penaltyScore avgEpoch EmptyDuration e (Fin 0) = Fin 0"
proof -
  obtain r where "AvgGenerationsPerTrial e = Fin r"
    using AvgGenerationsPerTrial_finite by blast
  then show ?thesis by (simp add: penaltyScore_def Seconds_def)
qed

lemma EfficiencyScore_few_trials:
  assumes "length (e_Trials e) < 2"
  shows "EfficiencyScore solved avgEpoch EmptyDuration organismComplexity h e = Inr (Fin 0)"
proof -
  from assms have "\<not> 1 < length (e_Trials e)" by simp
  then show ?thesis
    by (simp add: EfficiencyScore_def penaltyScore_zero)
qed

lemma winner_of_step:
  "t_WinnerGeneration (if t_WinnerGeneration t = None then fst (Trial_WinnerStatistics t) else t)
     = winner_of t"
  by (simp add: winner_of_def)

lemma winners_loop_sums:
  assumes "\<forall>t\<in>set ts. solved t \<longrightarrow> winner_champion t \<noteq> None"
  shows "winners_loop solved organismComplexity h ts (mc, mf, Fin c) =
           Inr (foldl fadd mc (map (winner_complexity organismComplexity h) (filter solved ts)),
                foldl fadd mf (map (winner_fitness h) (filter solved ts)),
                Fin (c + real (length (filter solved ts))))"
  using assms
proof (induction ts arbitrary: mc mf c)
  case Nil
  show ?case by simp
next
  case (Cons t ts)
  from Cons.prems have rest: "\<forall>t\<in>set ts. solved t \<longrightarrow> winner_champion t \<noteq> None" by simp
  show ?case
  proof (cases "solved t")
    case False
    with Cons.IH [OF rest] show ?thesis by simp
  next
    case True
    with Cons.prems obtain a where a: "winner_champion t = Some a" by auto
    then obtain w where w: "winner_of t = Some w" "g_Champion w = Some a"
      by (auto simp: winner_champion_def split: option.splits)
    have "winners_loop solved organismComplexity h (t # ts) (mc, mf, Fin c) =
        winners_loop solved organismComplexity h ts
          (fadd mc (float64_of_int (organismComplexity (h a))),
           fadd mf (o_Fitness (h a)), Fin (c + 1))"
      using True w by (simp add: winner_of_step Let_def ChampionComplexity_def)
    also have "\<dots> = Inr (foldl fadd (fadd mc (float64_of_int (organismComplexity (h a))))
                      (map (winner_complexity organismComplexity h) (filter solved ts)),
                foldl fadd (fadd mf (o_Fitness (h a))) (map (winner_fitness h) (filter solved ts)),
                Fin (c + 1 + real (length (filter solved ts))))"
      by (rule Cons.IH [OF rest])
    finally have step: "winners_loop solved organismComplexity h (t # ts) (mc, mf, Fin c) =
        Inr (foldl fadd (fadd mc (float64_of_int (organismComplexity (h a))))
                      (map (winner_complexity organismComplexity h) (filter solved ts)),
                foldl fadd (fadd mf (o_Fitness (h a))) (map (winner_fitness h) (filter solved ts)),
                Fin (c + 1 + real (length (filter solved ts))))" .
    have wc: "winner_complexity organismComplexity h t = float64_of_int (organismComplexity (h a))"
      using a by (simp add: winner_complexity_def)
    have wf: "winner_fitness h t = o_Fitness (h a)"
      using a by (simp add: winner_fitness_def)
    show ?thesis
      unfolding step using True by (simp add: wc wf add.assoc)
  qed
qed

lemma EfficiencyScore_many_trials:
  assumes "2 \<le> length (e_Trials e)"
    and "\<forall>t\<in>set (e_Trials e). solved t \<longrightarrow> winner_champion t \<noteq> None"
  shows "EfficiencyScore solved avgEpoch EmptyDuration organismComplexity h e
       = Inr (efficiency_formula solved avgEpoch EmptyDuration organismComplexity h e)"
proof -
  from assms(1) have many: "1 < length (e_Trials e)" by simp
  note loop = winners_loop_sums [OF assms(2), of organismComplexity h "Fin 0" "Fin 0" 0]
  show ?thesis
    using many
    by (simp add: EfficiencyScore_def loop efficiency_formula_def Let_def fsum_def
          penaltyScore_def float64_of_int_def)
qed

text \<open>
  C3, amended. With fewer than two Trials \<open>EfficiencyScore\<close> returns 0. With two or
  more Trials, at least one of them solved, and a champion in the winner generation of
  every solved Trial, it returns what \<open>efficiency_formula\<close> describes: the means over
  the solved Trials, the fitness rescaled exactly when \<open>MaxFitnessScore > 0\<close>, the
  penalty \<open>seconds * 1000 * generations per trial * mean complexity\<close>, and
  \<open>successRate * scaledFitness / ln(penalty)\<close> for a positive penalty; a penalty that is
  not positive is returned as it is.
\<close>

theorem EfficiencyScore_formula:
  "(length (e_Trials e) < 2 \<longrightarrow>
      EfficiencyScore solved avgEpoch EmptyDuration organismComplexity h e = Inr (Fin 0))
   \<and> (2 \<le> length (e_Trials e) \<and> (\<exists>t\<in>set (e_Trials e). solved t)
        \<and> (\<forall>t\<in>set (e_Trials e). solved t \<longrightarrow> winner_champion t \<noteq> None) \<longrightarrow>
      EfficiencyScore solved avgEpoch EmptyDuration organismComplexity h e
        = Inr (efficiency_formula solved avgEpoch EmptyDuration organismComplexity h e))"
  using EfficiencyScore_few_trials [of e solved avgEpoch EmptyDuration organismComplexity h]
    EfficiencyScore_many_trials [of e solved avgEpoch EmptyDuration organismComplexity h]
  by blast

text \<open>The scores of the sample experiments.\<close>

lemmas sample_defs =
  scenario_experiment_def backdated_experiment_def none_solved_experiment_def
  Experiment0_def solved_trial_def unsolved_trial_def Trial0_def
  sample_generation_def Generation0_def sample_solved_def sample_complexity_def
  sample_store_def Organism0_def sample_avgEpoch_def

lemmas analytics_defs =
  efficiency_formula_def Let_def winner_complexity_def winner_fitness_def
  winner_champion_def winner_of_def Trial_WinnerStatistics_def fsum_def
  float64_of_int_def SuccessRate_def TrialsSolved_def Experiment_AvgEpochDuration_def
  quot64_def wrap64_def AvgGenerationsPerTrial_def Seconds_def penaltyScore_def

lemma scenario_SuccessRate: "SuccessRate sample_solved scenario_experiment = Fin (1 / 2)"
  by (simp add: sample_defs analytics_defs)

lemma scenario_penalty:
  "penaltyScore sample_avgEpoch 0 scenario_experiment (Fin 10) = Fin 40"
  by (simp add: sample_defs analytics_defs)

lemma scenario_formula:
  "efficiency_formula sample_solved sample_avgEpoch 0 sample_complexity sample_store
     scenario_experiment = Fin (45 / ln 40)"
  by (simp add: sample_defs analytics_defs)

lemma backdated_penalty:
  "penaltyScore sample_avgEpoch 0 backdated_experiment (Fin 10) = Fin (- 40)"
  by (simp add: sample_defs analytics_defs)

lemma backdated_score:
  "EfficiencyScore sample_solved sample_avgEpoch 0 sample_complexity sample_store
     backdated_experiment = Inr (Fin (- 40))"
  by (simp add: EfficiencyScore_def ChampionComplexity_def sample_defs analytics_defs)

lemma none_solved_score:
  "EfficiencyScore sample_solved sample_avgEpoch 0 sample_complexity sample_store
     none_solved_experiment = Inr NaN"
  by (simp add: EfficiencyScore_def ChampionComplexity_def sample_defs analytics_defs)

theorem EfficiencyScore_formula_witness:
  "length (e_Trials scenario_experiment) = 2
   \<and> SuccessRate sample_solved scenario_experiment = Fin (1 / 2)
   \<and> EfficiencyScore sample_solved sample_avgEpoch 0 sample_complexity sample_store
         scenario_experiment = Inr (Fin (45 / ln 40))"
proof -
  have n: "length (e_Trials scenario_experiment) = 2"
    by (simp add: scenario_experiment_def Experiment0_def)
  have s: "\<exists>t\<in>set (e_Trials scenario_experiment). sample_solved t"
    by (simp add: sample_defs)
  have w: "\<forall>t\<in>set (e_Trials scenario_experiment).
      sample_solved t \<longrightarrow> winner_champion t \<noteq> None"
    by (simp add: sample_defs winner_champion_def winner_of_def Trial_WinnerStatistics_def)
  from n s w EfficiencyScore_formula
    [of scenario_experiment sample_solved sample_avgEpoch 0 sample_complexity sample_store]
  have "EfficiencyScore sample_solved sample_avgEpoch 0 sample_complexity sample_store
      scenario_experiment
    = Inr (efficiency_formula sample_solved sample_avgEpoch 0 sample_complexity sample_store
        scenario_experiment)"
    by simp
  with n scenario_SuccessRate scenario_formula show ?thesis by simp
qed

text \<open>
  C3 as stated fails where the penalty is negative: the backdated experiment has two
  Trials, one solved, and a penalty of \<open>-40\<close>, and its efficiency score is
  that penalty, not 0.
\<close>

theorem EfficiencyScore_negative_penalty_counterexample:
  "2 \<le> length (e_Trials backdated_experiment)
   \<and> penaltyScore sample_avgEpoch 0 backdated_experiment (Fin 10) = Fin (- 40)
   \<and> \<not> fgt (Fin (- 40)) (Fin 0)
   \<and> EfficiencyScore sample_solved sample_avgEpoch 0 sample_complexity sample_store
         backdated_experiment = Inr (Fin (- 40))
   \<and> Fin (- 40) \<noteq> Fin 0"
  using backdated_penalty backdated_score
  by (simp add: backdated_experiment_def Experiment0_def)

subsection \<open>Encoding an experiment and decoding it again\<close>

lemma liftE_Inr [simp]: "liftE (Inr x) = Inr x"
  by (simp add: liftE_def)

lemma liftE_Inl [simp]: "liftE (Inl e) = Inl (Error e)"
  by (simp add: liftE_def)

lemma persisted_organism_eq:
  "Organism0\<lparr>o_Fitness := o_Fitness org, o_IsWinner := o_IsWinner org,
      o_Generation := o_Generation org, o_ExpectedOffspring := o_ExpectedOffspring org,
      o_Error := o_Error org, o_Genotype := o_Genotype org\<rparr> = persisted_organism org"
  by (cases org) (simp add: Organism0_def persisted_organism_def)

lemma decodeOrganism_record:
  assumes "o_Genotype org = Some gen" "Write gen = Inr bs" "ReadGenome bs (genId gen) = Inr gen"
  shows "decodeOrganism ReadGenome (organism_record genId Write org @ rest)
       = Inr (persisted_organism org, rest)"
  using assms persisted_organism_eq [of org]
  by (simp add: decodeOrganism_def organism_record_def)

lemma with_scalars_Champion:
  "(with_scalars r g)\<lparr>g_Champion := c\<rparr> = g\<lparr>g_Champion := c\<rparr>"
  by (cases r, cases g) (simp add: with_scalars_def)

lemma Generation_Decode_record:
  assumes "champion_ok genId Write ReadGenome g"
  shows "Generation_Decode ReadGenome r (generation_record genId Write g @ rest)
       = Inr (persisted_generation g, rest)"
proof -
  from assms obtain org gen bs where
    c: "g_Champion g = Some org" "o_Genotype org = Some gen" "Write gen = Inr bs"
       "ReadGenome bs (genId gen) = Inr gen"
    by (auto simp: champion_ok_def split: option.splits sum.splits)
  have "Generation_Decode ReadGenome r (scalar_fields g @ organism_record genId Write org @ rest)
      = bindE (decodeOrganism ReadGenome (organism_record genId Write org @ rest))
          (\<lambda>(org, dec). Inr ((with_scalars r g)\<lparr>g_Champion := Some org\<rparr>, dec))"
    by (rule Generation_Decode_scalars)
  also have "\<dots> = Inr (g\<lparr>g_Champion := Some (persisted_organism org)\<rparr>, rest)"
    using decodeOrganism_record [where Write = Write and ReadGenome = ReadGenome
        and genId = genId and rest = rest, OF c(2,3,4)]
    by (simp add: with_scalars_Champion)
  finally show ?thesis
    using c(1) by (simp add: generation_record_def persisted_generation_def)
qed

lemma decode_generations_record:
  assumes "\<forall>g\<in>set gs. champion_ok genId Write ReadGenome g"
  shows "decode_generations ReadGenome (length gs)
           (concat (map (generation_record genId Write) gs) @ rest)
       = Inr (map persisted_generation gs, rest)"
  using assms
  by (induction gs) (simp_all add: Generation_Decode_record)

lemma Trial_Decode_record:
  assumes "\<forall>g\<in>set (t_Generations t). champion_ok genId Write ReadGenome g"
  shows "Trial_Decode ReadGenome Trial0 (trial_record genId Write t @ rest)
       = Inr (persisted_trial t, rest)"
  using decode_generations_record [OF assms, where rest = rest]
  by (simp add: Trial_Decode_def trial_record_def persisted_trial_def)

lemma decode_trials_record:
  assumes "\<forall>t\<in>set ts. \<forall>g\<in>set (t_Generations t). champion_ok genId Write ReadGenome g"
  shows "decode_trials ReadGenome (length ts) (concat (map (trial_record genId Write) ts) @ rest)
       = Inr (map persisted_trial ts, rest)"
  using assms
  by (induction ts) (simp_all add: Trial_Decode_record)

lemma Experiment_Decode_record:
  assumes "\<forall>t\<in>set (e_Trials e). \<forall>g\<in>set (t_Generations t). champion_ok genId Write ReadGenome g"
  shows "Experiment_Decode ReadGenome r (experiment_record genId Write e @ rest)
       = Inr (persisted_experiment r e, rest)"
  using decode_trials_record [OF assms, where rest = rest]
  by (simp add: Experiment_Decode_def experiment_record_def persisted_experiment_def)

lemma encode_generations_written:
  "encode_generations genId Write gs enc = Inr enc' \<Longrightarrow>
     written enc' = written enc @ concat (map (generation_record genId Write) gs)"
proof (induction gs arbitrary: enc)
  case Nil
  then show ?case by simp
next
  case (Cons g gs)
  from Cons.prems obtain e1 where
    g: "Generation_Encode genId Write g enc = Inr e1"
    and r: "encode_generations genId Write gs e1 = Inr enc'"
    by (auto simp: bindE_Inr_iff)
  from Generation_Encode_written [OF g] Cons.IH [OF r] show ?case
    by (simp add: generation_record_def)
qed

lemma Trial_Encode_written:
  assumes "Trial_Encode genId Write t enc = Inr enc'"
  shows "written enc' = written enc @ trial_record genId Write t"
proof -
  from assms obtain e1 where
    "written e1 = written enc @ [GInt (int (length (t_Generations t)))]"
    and "encode_generations genId Write (t_Generations t) e1 = Inr enc'"
    unfolding Trial_Encode_def by (elim bind_encE)
  with encode_generations_written [of genId Write "t_Generations t" e1 enc'] show ?thesis
    by (simp add: trial_record_def)
qed

lemma encode_trials_written:
  "encode_trials genId Write ts enc = Inr enc' \<Longrightarrow>
     written enc' = written enc @ concat (map (trial_record genId Write) ts)"
proof (induction ts arbitrary: enc)
  case Nil
  then show ?case by simp
next
  case (Cons t ts)
  from Cons.prems obtain e1 where
    t: "Trial_Encode genId Write t enc = Inr e1"
    and r: "encode_trials genId Write ts e1 = Inr enc'"
    by (auto simp: bindE_Inr_iff)
  from Trial_Encode_written [OF t] Cons.IH [OF r] show ?case by simp
qed

lemma Experiment_Encode_written:
  assumes "Experiment_Encode genId Write e enc = Inr enc'"
  shows "written enc' = written enc @ experiment_record genId Write e"
proof -
  from assms obtain e3 where
    "written e3 = written enc @ [GInt (e_Id e), GString (e_Name e),
                                  GInt (int (length (e_Trials e)))]"
    and "encode_trials genId Write (e_Trials e) e3 = Inr enc'"
    unfolding Experiment_Encode_def by (elim bind_encE) simp
  with encode_trials_written [of genId Write "e_Trials e" e3 enc'] show ?thesis
    by (simp add: experiment_record_def)
qed

lemma Generation_Encode_unbounded:
  assumes "room enc = None" and "champion_ok genId Write ReadGenome g"
  shows "\<exists>enc'. Generation_Encode genId Write g enc = Inr enc' \<and> room enc' = None"
proof -
  from assms(2) obtain org gen bs where
    c: "g_Champion g = Some org" "o_Genotype org = Some gen" "Write gen = Inr bs"
    by (auto simp: champion_ok_def split: option.splits sum.splits)
  with assms(1) show ?thesis
    by (simp add: Generation_Encode_def encodeOrganism_def enc_Encode_unbounded)
qed

lemma encode_generations_unbounded:
  assumes "room enc = None" and "\<forall>g\<in>set gs. champion_ok genId Write ReadGenome g"
  shows "\<exists>enc'. encode_generations genId Write gs enc = Inr enc' \<and> room enc' = None"
  using assms
proof (induction gs arbitrary: enc)
  case Nil
  then show ?case by simp
next
  case (Cons g gs)
  from Cons.prems obtain e1 where
    g: "Generation_Encode genId Write g enc = Inr e1" "room e1 = None"
    using Generation_Encode_unbounded [of enc genId Write ReadGenome g] by auto
  from Cons.IH [OF g(2)] Cons.prems(2) g(1) show ?case by simp
qed

lemma Trial_Encode_unbounded:
  assumes "room enc = None"
    and "\<forall>g\<in>set (t_Generations t). champion_ok genId Write ReadGenome g"
  shows "\<exists>enc'. Trial_Encode genId Write t enc = Inr enc' \<and> room enc' = None"
  using encode_generations_unbounded
    [of "enc\<lparr>written := written enc @ [GInt (int (length (t_Generations t)))]\<rparr>"
        "t_Generations t" genId Write ReadGenome] assms
  by (simp add: Trial_Encode_def enc_Encode_unbounded)

lemma encode_trials_unbounded:
  assumes "room enc = None"
    and "\<forall>t\<in>set ts. \<forall>g\<in>set (t_Generations t). champion_ok genId Write ReadGenome g"
  shows "\<exists>enc'. encode_trials genId Write ts enc = Inr enc' \<and> room enc' = None"
  using assms
proof (induction ts arbitrary: enc)
  case Nil
  then show ?case by simp
next
  case (Cons t ts)
  from Cons.prems obtain e1 where
    t: "Trial_Encode genId Write t enc = Inr e1" "room e1 = None"
    using Trial_Encode_unbounded [of enc t genId Write ReadGenome] by auto
  from Cons.IH [OF t(2)] Cons.prems(2) t(1) show ?case by simp
qed

lemma Experiment_Encode_unbounded:
  assumes "room enc = None"
    and "\<forall>t\<in>set (e_Trials e). \<forall>g\<in>set (t_Generations t). champion_ok genId Write ReadGenome g"
  shows "\<exists>enc'. Experiment_Encode genId Write e enc = Inr enc'"
  using encode_trials_unbounded
    [of "enc\<lparr>written := written enc @ [GInt (e_Id e), GString (e_Name e),
                                          GInt (int (length (e_Trials e)))]\<rparr>"
        "e_Trials e" genId Write ReadGenome] assms
  by (auto simp: Experiment_Encode_def enc_Encode_unbounded)

text \<open>
  C2, amended. Let every Generation of every Trial have a champion with a genome that
  its writer and parser take round. Then \<open>Experiment.Encode\<close> returns on a writer that
  never fails, and whenever it returns, \<open>Experiment.Decode\<close> on what it wrote yields
  the receiver with the identifier, the name and the Trials of the original: each Trial
  with its Generations, each Generation with its twelve fields and its champion, the
  champion with its fitness, winner flag, generation, expected offspring, error and
  genome. The random seed and the maximal fitness score are not on the stream and stay
  the receiver's; the champion's species and flag are not on the stream either and are
  nil and 0 after decoding.
\<close>

theorem Experiment_round_trip:
  assumes "\<forall>t\<in>set (e_Trials e). \<forall>g\<in>set (t_Generations t).
             champion_ok genId Write ReadGenome g"
  shows "(room enc = None \<longrightarrow> (\<exists>enc'. Experiment_Encode genId Write e enc = Inr enc'))
       \<and> (\<forall>enc'. Experiment_Encode genId Write e enc = Inr enc' \<longrightarrow>
            Experiment_Decode ReadGenome r (drop (length (written enc)) (written enc') @ rest)
              = Inr (persisted_experiment r e, rest))"
proof (rule conjI)
  show "room enc = None \<longrightarrow> (\<exists>enc'. Experiment_Encode genId Write e enc = Inr enc')"
    using Experiment_Encode_unbounded [OF _ assms] by blast
next
  show "\<forall>enc'. Experiment_Encode genId Write e enc = Inr enc' \<longrightarrow>
            Experiment_Decode ReadGenome r (drop (length (written enc)) (written enc') @ rest)
              = Inr (persisted_experiment r e, rest)"
  proof (intro allI impI)
    fix enc'
    assume "Experiment_Encode genId Write e enc = Inr enc'"
    then have "written enc' = written enc @ experiment_record genId Write e"
      by (rule Experiment_Encode_written)
    then have "drop (length (written enc)) (written enc') = experiment_record genId Write e"
      by simp
    then show "Experiment_Decode ReadGenome r (drop (length (written enc)) (written enc') @ rest)
              = Inr (persisted_experiment r e, rest)"
      by (simp add: Experiment_Decode_record [OF assms])
  qed
qed

text \<open>The stored experiment, its stream, and what is decoded from it.\<close>

lemmas stored_defs =
  stored_experiment_def stored_generation_def stored_champion_def stored_stream_def
  decoded_experiment_def sample_genId_def sample_Write_def sample_ReadGenome_def
  Trial0_def Generation0_def Organism0_def Experiment0_def

lemma stored_encode:
  "Experiment_Encode sample_genId sample_Write stored_experiment \<lparr>written = [], room = None\<rparr>
     = Inr \<lparr>written = stored_stream, room = None\<rparr>"
  by (simp add: Experiment_Encode_def Trial_Encode_def Generation_Encode_def
        encodeOrganism_def enc_Encode_def stored_defs)

lemma stored_decode:
  "Experiment_Decode sample_ReadGenome Experiment0 stored_stream = Inr (decoded_experiment, [])"
  by (simp add: Experiment_Decode_def Trial_Decode_def Generation_Decode_def
        decodeOrganism_def stored_defs)

lemma stored_champions_ok:
  "\<forall>t\<in>set (e_Trials stored_experiment). \<forall>g\<in>set (t_Generations t).
     champion_ok sample_genId sample_Write sample_ReadGenome g"
  by (simp add: champion_ok_def stored_defs)

lemma stored_champions_present: "champions_present stored_experiment"
  by (simp add: champions_present_def stored_defs)

theorem Experiment_round_trip_witness:
  "champions_present stored_experiment
   \<and> Experiment_Decode sample_ReadGenome Experiment0 stored_stream
       = Inr (persisted_experiment Experiment0 stored_experiment, [])
   \<and> e_Trials (persisted_experiment Experiment0 stored_experiment) = e_Trials stored_experiment"
proof -
  note t = Experiment_round_trip [OF stored_champions_ok,
      of "\<lparr>written = [], room = None\<rparr>" Experiment0 "[]"]
  from t stored_encode
  have "Experiment_Decode sample_ReadGenome Experiment0
          (drop (length (written \<lparr>written = [], room = None\<rparr>))
             (written \<lparr>written = stored_stream, room = None\<rparr>) @ [])
        = Inr (persisted_experiment Experiment0 stored_experiment, [])"
    by blast
  then have d: "Experiment_Decode sample_ReadGenome Experiment0 stored_stream
       = Inr (persisted_experiment Experiment0 stored_experiment, [])"
    by simp
  have "e_Trials (persisted_experiment Experiment0 stored_experiment) = e_Trials stored_experiment"
    by (simp add: persisted_experiment_def persisted_trial_def persisted_generation_def
          persisted_organism_def stored_defs)
  with d stored_champions_present show ?thesis by simp
qed

text \<open>
  C2 as stated fails on the stored experiment: all its Generations have champions, and
  decoding its stream into a fresh Experiment gives a random seed of 0 and a maximal
  fitness score of 0, where the original has 42 and 16.
\<close>

theorem Experiment_round_trip_counterexample:
  "champions_present stored_experiment
   \<and> Experiment_Encode sample_genId sample_Write stored_experiment \<lparr>written = [], room = None\<rparr>
       = Inr \<lparr>written = stored_stream, room = None\<rparr>
   \<and> Experiment_Decode sample_ReadGenome Experiment0 stored_stream = Inr (decoded_experiment, [])
   \<and> decoded_experiment \<noteq> stored_experiment
   \<and> e_RandSeed decoded_experiment \<noteq> e_RandSeed stored_experiment
   \<and> e_MaxFitnessScore decoded_experiment \<noteq> e_MaxFitnessScore stored_experiment"
  using stored_champions_present stored_encode stored_decode
  by (simp add: stored_experiment_def decoded_experiment_def)

end
